theory Spec2Isabelle
  imports Main "HOL-Library.AList"
begin

unbundle bit_operations_syntax

section \<open>Python values\<close>

text \<open>
  A Python \<open>str\<close> is a sequence of Unicode code points, each below \<open>0x110000\<close>
  (surrogate code points included). String literals of the source are written with
  \<open>str\<close>; the characters that Isabelle's string syntax does not take are given by
  their code point: \<open>0x22\<close> is the double quote, \<open>0x5C\<close> the backslash,
  \<open>0x0A\<close> the line feed.
\<close>

type_synonym pystr = "nat list"

definition str :: "string \<Rightarrow> pystr" where
  "str cs = map of_char cs"

definition is_str :: "pystr \<Rightarrow> bool" where
  "is_str s = list_all (\<lambda>c. c < 0x110000) s"

text \<open>
  The exceptions that the program can meet. \<open>OSError\<close> stands for the whole family
  raised by \<open>os.makedirs\<close>, \<open>open\<close> and \<open>write\<close>
  (\<open>PermissionError\<close>, \<open>FileNotFoundError\<close>, \<open>IsADirectoryError\<close>, ...).
\<close>

datatype py_error = OSError | UnicodeDecodeError | JSONDecodeError | AttributeError | TypeError

text \<open>
  The values that \<open>json.load\<close> returns. A \<open>dict\<close> is an association list in
  insertion order whose keys are pairwise distinct. A \<open>float\<close> is kept as the
  literal it was read from: its numeric value is not modelled.
\<close>

datatype pyval =
    PNone
  | PBool bool
  | PInt int
  | PFloat pystr
  | PStr pystr
  | PList "pyval list"
  | PDict "(pystr \<times> pyval) list"

section \<open>The \<open>json\<close> module: encoding\<close>

text \<open>\<open>'{0:04x}'.format(n)\<close> for \<open>n < 0x10000\<close>.\<close>

definition hexdigit :: "nat \<Rightarrow> nat" where
  "hexdigit d = (if d < 10 then 0x30 + d else 0x57 + d)"

definition hex4 :: "nat \<Rightarrow> pystr" where
  "hex4 n = [hexdigit (n div 4096 mod 16), hexdigit (n div 256 mod 16),
             hexdigit (n div 16 mod 16), hexdigit (n mod 16)]"

text \<open>
  \<open>py_encode_basestring_ascii\<close>: \<open>ESCAPE_ASCII\<close> matches the backslash, the
  double quote and everything outside \<open>' '..'~'\<close>; \<open>replace\<close> looks the match up
  in \<open>ESCAPE_DCT\<close> and otherwise writes \<open>\uXXXX\<close>, or a surrogate pair for a code
  point from \<open>0x10000\<close> on.
\<close>

definition replace :: "nat \<Rightarrow> pystr" where
  "replace c =
     (if c = 0x5C then [0x5C, 0x5C]
      else if c = 0x22 then [0x5C, 0x22]
      else if c = 0x08 then 0x5C # str ''b''
      else if c = 0x0C then 0x5C # str ''f''
      else if c = 0x0A then 0x5C # str ''n''
      else if c = 0x0D then 0x5C # str ''r''
      else if c = 0x09 then 0x5C # str ''t''
      else if 0x20 \<le> c \<and> c \<le> 0x7E then [c]
      else if c < 0x10000 then 0x5C # str ''u'' @ hex4 c
      else
        (let n = c - 0x10000;
             s1 = 0xD800 OR (drop_bit 10 n AND 0x3FF);
             s2 = 0xDC00 OR (n AND 0x3FF)
         in 0x5C # str ''u'' @ hex4 s1 @ 0x5C # str ''u'' @ hex4 s2))"

definition encode_basestring_ascii :: "pystr \<Rightarrow> pystr" where
  "encode_basestring_ascii s = 0x22 # concat (map replace s) @ [0x22]"

text \<open>
  \<open>_iterencode_dict\<close> for a dict of strings at indent level 0 with \<open>indent=2\<close>:
  then \<open>newline_indent\<close> is a line feed and two spaces, \<open>item_separator\<close> is a comma
  followed by \<open>newline_indent\<close>, and \<open>_key_separator\<close> is \<open>': '\<close>.
\<close>

definition newline_indent :: pystr where
  "newline_indent = 0x0A # str ''  ''"

definition item_separator :: pystr where
  "item_separator = str '','' @ newline_indent"

definition key_separator :: pystr where
  "key_separator = str '': ''"

fun iterencode_items :: "bool \<Rightarrow> (pystr \<times> pystr) list \<Rightarrow> pystr" where
  "iterencode_items first [] = []"
| "iterencode_items first ((key, value) # items) =
     (if first then [] else item_separator)
     @ encode_basestring_ascii key @ key_separator @ encode_basestring_ascii value
     @ iterencode_items False items"

definition iterencode_dict :: "(pystr \<times> pystr) list \<Rightarrow> pystr" where
  "iterencode_dict dct =
     (if dct = [] then str ''{}''
      else str ''{'' @ newline_indent @ iterencode_items True dct @ [0x0A] @ str ''}'')"

section \<open>The \<open>json\<close> module: decoding\<close>

definition is_ws :: "nat \<Rightarrow> bool" where
  "is_ws c = (c = 0x20 \<or> c = 0x09 \<or> c = 0x0A \<or> c = 0x0D)"

text \<open>\<open>WHITESPACE.match(s, end).end()\<close>, on the rest of the text.\<close>

definition skip_ws :: "pystr \<Rightarrow> pystr" where
  "skip_ws s = dropWhile is_ws s"

definition hex_value :: "nat \<Rightarrow> nat option" where
  "hex_value c =
     (if 0x30 \<le> c \<and> c \<le> 0x39 then Some (c - 0x30)
      else if 0x61 \<le> c \<and> c \<le> 0x66 then Some (c - 0x57)
      else if 0x41 \<le> c \<and> c \<le> 0x46 then Some (c - 0x37)
      else None)"

text \<open>\<open>_decode_uXXXX\<close>, as the accelerated scanner does it: four hexadecimal digits.\<close>

definition decode_uXXXX :: "nat \<Rightarrow> nat \<Rightarrow> nat \<Rightarrow> nat \<Rightarrow> nat option" where
  "decode_uXXXX a b c d =
     (case (hex_value a, hex_value b, hex_value c, hex_value d) of
        (Some w, Some x, Some y, Some z) \<Rightarrow> Some (((w * 16 + x) * 16 + y) * 16 + z)
      | _ \<Rightarrow> None)"

text \<open>The table \<open>BACKSLASH\<close> of the decoder.\<close>

definition BACKSLASH :: "nat \<Rightarrow> nat option" where
  "BACKSLASH esc =
     (if esc = 0x22 then Some 0x22
      else if esc = 0x5C then Some 0x5C
      else if esc = 0x2F then Some 0x2F
      else if esc = 0x62 then Some 0x08
      else if esc = 0x66 then Some 0x0C
      else if esc = 0x6E then Some 0x0A
      else if esc = 0x72 then Some 0x0D
      else if esc = 0x74 then Some 0x09
      else None)"

definition is_high :: "nat \<Rightarrow> bool" where
  "is_high uni = (0xD800 \<le> uni \<and> uni \<le> 0xDBFF)"

definition is_low :: "nat \<Rightarrow> bool" where
  "is_low uni = (0xDC00 \<le> uni \<and> uni \<le> 0xDFFF)"

definition join_surrogates :: "nat \<Rightarrow> nat \<Rightarrow> nat" where
  "join_surrogates uni uni2 = 0x10000 + (push_bit 10 (uni - 0xD800) OR (uni2 - 0xDC00))"

text \<open>\<open>_append(char)\<close> followed by the rest of the loop.\<close>

definition append_char :: "nat \<Rightarrow> py_error + (pystr \<times> pystr) \<Rightarrow> py_error + (pystr \<times> pystr)" where
  "append_char ch res = (case res of Inl e \<Rightarrow> Inl e | Inr (chunks, r) \<Rightarrow> Inr (ch # chunks, r))"

text \<open>
  \<open>scanstring(s, end, strict=True)\<close>: the argument is the text after the opening
  quote; the result is the decoded string and the text after the closing quote.
\<close>

fun scanstring :: "pystr \<Rightarrow> py_error + (pystr \<times> pystr)" where
  "scanstring [] = Inl JSONDecodeError"
| "scanstring (c # cs) =
     (if c = 0x22 then Inr ([], cs)
      else if c = 0x5C then
        (case cs of
           [] \<Rightarrow> Inl JSONDecodeError
         | esc # es \<Rightarrow>
             if esc \<noteq> 0x75 then
               (case BACKSLASH esc of
                  None \<Rightarrow> Inl JSONDecodeError
                | Some ch \<Rightarrow> append_char ch (scanstring es))
             else
               (case es of
                  h1 # h2 # h3 # h4 # r \<Rightarrow>
                    (case decode_uXXXX h1 h2 h3 h4 of
                       None \<Rightarrow> Inl JSONDecodeError
                     | Some uni \<Rightarrow>
                         (case r of
                            b # u # l1 # l2 # l3 # l4 # r2 \<Rightarrow>
                              if is_high uni \<and> b = 0x5C \<and> u = 0x75 then
                                (case decode_uXXXX l1 l2 l3 l4 of
                                   None \<Rightarrow> Inl JSONDecodeError
                                 | Some uni2 \<Rightarrow>
                                     if is_low uni2
                                     then append_char (join_surrogates uni uni2) (scanstring r2)
                                     else append_char uni (scanstring r))
                              else append_char uni (scanstring r)
                          | _ \<Rightarrow> append_char uni (scanstring r)))
                | _ \<Rightarrow> Inl JSONDecodeError))
      else if c < 0x20 then Inl JSONDecodeError
      else append_char c (scanstring cs))"

declare scanstring.simps [simp del]

definition is_digit :: "nat \<Rightarrow> bool" where
  "is_digit c = (0x30 \<le> c \<and> c \<le> 0x39)"

text \<open>
  \<open>NUMBER_RE\<close>, with the ASCII digits of the accelerated scanner: an optional minus
  sign and either \<open>0\<close> or a digit sequence without a leading zero; then a
  fraction, if a point and a digit follow; then an exponent, if \<open>e\<close> or \<open>E\<close>, an
  optional sign and a digit follow.
\<close>

definition match_integer :: "pystr \<Rightarrow> (pystr \<times> pystr) option" where
  "match_integer s =
     (let (sign, t) = (case s of [] \<Rightarrow> ([], s) | c # cs \<Rightarrow> if c = 0x2D then ([c], cs) else ([], s))
      in case t of
           [] \<Rightarrow> None
         | d # ds \<Rightarrow>
             if d = 0x30 then Some (sign @ [d], ds)
             else if is_digit d then Some (sign @ d # takeWhile is_digit ds, dropWhile is_digit ds)
             else None)"

definition match_frac :: "pystr \<Rightarrow> pystr \<times> pystr" where
  "match_frac s =
     (case s of
        p # d # ds \<Rightarrow>
          if p = 0x2E \<and> is_digit d then (p # d # takeWhile is_digit ds, dropWhile is_digit ds)
          else ([], s)
      | _ \<Rightarrow> ([], s))"

definition match_exp :: "pystr \<Rightarrow> pystr \<times> pystr" where
  "match_exp s =
     (case s of
        [] \<Rightarrow> ([], s)
      | e # t \<Rightarrow>
          if e = 0x65 \<or> e = 0x45 then
            (let (sign, u) = (case t of [] \<Rightarrow> ([], t)
                              | c # cs \<Rightarrow> if c = 0x2D \<or> c = 0x2B then ([c], cs) else ([], t))
             in case u of
                  [] \<Rightarrow> ([], s)
                | d # ds \<Rightarrow>
                    if is_digit d
                    then (e # sign @ d # takeWhile is_digit ds, dropWhile is_digit ds)
                    else ([], s))
          else ([], s))"

definition match_number :: "pystr \<Rightarrow> ((pystr \<times> pystr \<times> pystr) \<times> pystr) option" where
  "match_number s =
     (case match_integer s of
        None \<Rightarrow> None
      | Some (integer, s1) \<Rightarrow>
          (let (frac, s2) = match_frac s1; (exp, s3) = match_exp s2
           in Some ((integer, frac, exp), s3)))"

text \<open>\<open>int(integer)\<close> on a literal that \<open>NUMBER_RE\<close> matched.\<close>

definition parse_int :: "pystr \<Rightarrow> int" where
  "parse_int integer =
     (let digits = (\<lambda>ds. int (foldl (\<lambda>a d. a * 10 + (d - 0x30)) 0 ds))
      in case integer of
           [] \<Rightarrow> 0
         | c # cs \<Rightarrow> if c = 0x2D then - digits cs else digits integer)"

text \<open>
  The branches of \<open>_scan_once\<close> that read no nested value: the three names, a
  number, and the constants \<open>NaN\<close>, \<open>Infinity\<close> and \<open>-Infinity\<close>.
  \<open>StopIteration\<close> becomes \<open>JSONDecodeError\<close> in every caller.
\<close>

definition scan_atom :: "pystr \<Rightarrow> py_error + (pyval \<times> pystr)" where
  "scan_atom s =
     (if take 4 s = str ''null'' then Inr (PNone, drop 4 s)
      else if take 4 s = str ''true'' then Inr (PBool True, drop 4 s)
      else if take 5 s = str ''false'' then Inr (PBool False, drop 5 s)
      else
        (case match_number s of
           Some ((integer, frac, exp), r) \<Rightarrow>
             if frac \<noteq> [] \<or> exp \<noteq> [] then Inr (PFloat (integer @ frac @ exp), r)
             else Inr (PInt (parse_int integer), r)
         | None \<Rightarrow>
             if take 3 s = str ''NaN'' then Inr (PFloat (str ''NaN''), drop 3 s)
             else if take 8 s = str ''Infinity'' then Inr (PFloat (str ''Infinity''), drop 8 s)
             else if take 9 s = str ''-Infinity'' then Inr (PFloat (str ''-Infinity''), drop 9 s)
             else Inl JSONDecodeError))"

text \<open>\<open>dict(pairs)\<close>: a later pair with the same key replaces the value in place.\<close>

definition dict :: "(pystr \<times> pyval) list \<Rightarrow> (pystr \<times> pyval) list" where
  "dict pairs = foldl (\<lambda>d (k, v). AList.update k v d) [] pairs"

lemma length_skip_ws: "length (skip_ws s) \<le> length s"
  by (simp add: skip_ws_def length_dropWhile_le)

lemma skip_ws_Cons_shorter: "skip_ws r = c # cs \<Longrightarrow> length cs < length r"
  using length_skip_ws [of r] by simp

text \<open>A result that, when it is a value, leaves less than \<open>n\<close> characters.\<close>

definition consumes :: "nat \<Rightarrow> py_error + ('a \<times> pystr) \<Rightarrow> bool" where
  "consumes n res = (case res of Inl e \<Rightarrow> True | Inr (v, r) \<Rightarrow> length r < n)"

lemma consumes_simps [simp]:
  "consumes n (Inl e) = True" "consumes n (Inr (v, r)) = (length r < n)"
  by (simp_all add: consumes_def)

lemma consumes_append_char [simp]: "consumes n (append_char ch res) = consumes n res"
  by (simp add: consumes_def append_char_def split: sum.split)

lemma consumes_mono: "consumes m res \<Longrightarrow> m \<le> n \<Longrightarrow> consumes n res"
  by (auto simp: consumes_def split: sum.splits)

lemma scanstring_consumes: "consumes (length s) (scanstring s)"
proof (induction "length s" arbitrary: s rule: less_induct)
  case less
  show ?case
  proof (cases s)
    case Nil
    then show ?thesis by (simp add: scanstring.simps)
  next
    case (Cons c cs)
    have step: "consumes n (scanstring t)" if "length t < Suc (length cs)" "length t < n" for t n
    proof -
      from that(1) have "length t < length s" by (simp add: Cons)
      then have "consumes (length t) (scanstring t)" by (rule less.hyps)
      then show ?thesis using that(2) by (auto intro: consumes_mono)
    qed
    show ?thesis unfolding Cons
      by (subst scanstring.simps) (simp add: step split: list.split option.split)
  qed
qed

lemma scanstring_shorter: "scanstring s = Inr (key, r) \<Longrightarrow> length r < length s"
  using scanstring_consumes [of s] by simp

text \<open>
  \<open>_scan_once\<close>, and the loops of \<open>JSONArray\<close> and \<open>JSONObject\<close>. Each
  takes the text that is left and returns the value with the text after it.
  \<open>JSONArray\<close> starts at the first value of a non-empty array,
  \<open>JSONObject\<close> just after the opening quote of a key. The tests
  \<open>length cs < length s\<close> and \<open>length qs < length s\<close> bound the recursion;
  \<open>JSONArray_unguarded\<close> and \<open>JSONObject_unguarded\<close> below show that they
  hold whenever they are reached.
\<close>

function scan_once :: "pystr \<Rightarrow> py_error + (pyval \<times> pystr)"
  and JSONArray :: "pystr \<Rightarrow> py_error + (pyval list \<times> pystr)"
  and JSONObject :: "pystr \<Rightarrow> py_error + ((pystr \<times> pyval) list \<times> pystr)"
where
  "scan_once [] = Inl JSONDecodeError"
| "scan_once (nextchar # rest) =
     (if nextchar = 0x22 then
        (case scanstring rest of Inl e \<Rightarrow> Inl e | Inr (v, r) \<Rightarrow> Inr (PStr v, r))
      else if nextchar = 0x7B then
        (case skip_ws rest of
           [] \<Rightarrow> Inl JSONDecodeError
         | c # cs \<Rightarrow>
             if c = 0x7D then Inr (PDict [], cs)
             else if c = 0x22 then
               (case JSONObject cs of
                  Inl e \<Rightarrow> Inl e
                | Inr (pairs, r) \<Rightarrow> Inr (PDict (dict pairs), r))
             else Inl JSONDecodeError)
      else if nextchar = 0x5B then
        (case skip_ws rest of
           [] \<Rightarrow> Inl JSONDecodeError
         | c # cs \<Rightarrow>
             if c = 0x5D then Inr (PList [], cs)
             else
               (case JSONArray (c # cs) of
                  Inl e \<Rightarrow> Inl e
                | Inr (values, r) \<Rightarrow> Inr (PList values, r)))
      else scan_atom (nextchar # rest))"
| "JSONArray s =
     (case scan_once s of
        Inl e \<Rightarrow> Inl e
      | Inr (value, r) \<Rightarrow>
          (case skip_ws r of
             [] \<Rightarrow> Inl JSONDecodeError
           | c # cs \<Rightarrow>
               if c = 0x5D then Inr ([value], cs)
               else if c = 0x2C \<and> length cs < length s then
                 (case JSONArray (skip_ws cs) of
                    Inl e \<Rightarrow> Inl e
                  | Inr (values, r') \<Rightarrow> Inr (value # values, r'))
               else Inl JSONDecodeError))"
| "JSONObject s =
     (case scanstring s of
        Inl e \<Rightarrow> Inl e
      | Inr (key, r) \<Rightarrow>
          (case skip_ws r of
             [] \<Rightarrow> Inl JSONDecodeError
           | c # cs \<Rightarrow>
               if c \<noteq> 0x3A then Inl JSONDecodeError
               else
                 (case scan_once (skip_ws cs) of
                    Inl e \<Rightarrow> Inl e
                  | Inr (value, r2) \<Rightarrow>
                      (case skip_ws r2 of
                         [] \<Rightarrow> Inl JSONDecodeError
                       | d # ds \<Rightarrow>
                           if d = 0x7D then Inr ([(key, value)], ds)
                           else if d = 0x2C then
                             (case skip_ws ds of
                                [] \<Rightarrow> Inl JSONDecodeError
                              | q # qs \<Rightarrow>
                                  if q = 0x22 \<and> length qs < length s then
                                    (case JSONObject qs of
                                       Inl e \<Rightarrow> Inl e
                                     | Inr (pairs, r3) \<Rightarrow> Inr ((key, value) # pairs, r3))
                                  else Inl JSONDecodeError)
                           else Inl JSONDecodeError))))"
  by pat_completeness auto
termination
proof (relation "measure (\<lambda>x. case x of Inl s \<Rightarrow> 2 * length s
                                        | Inr (Inl s) \<Rightarrow> 2 * length s + 1
                                        | Inr (Inr s) \<Rightarrow> 2 * length s + 1)",
       goal_cases)
  case 1
  show ?case by simp
next
  case (2 nextchar rest c cs)
  then show ?case using skip_ws_Cons_shorter [of rest c cs] by simp
next
  case (3 nextchar rest c cs)
  then show ?case using skip_ws_Cons_shorter [of rest c cs] by simp
next
  case (4 s)
  show ?case by simp
next
  case (5 s x v r c cs)
  then show ?case using length_skip_ws [of cs] by simp
next
  case (6 s x key r c cs)
  then show ?case
    using length_skip_ws [of cs] skip_ws_Cons_shorter [of r c cs] scanstring_shorter [of s key r]
    by simp
next
  case (7 s x key r c cs y v r2 d ds q qs)
  then show ?case by simp
qed

declare scan_once.simps [simp del] JSONArray.simps [simp del] JSONObject.simps [simp del]

text \<open>
  \<open>json.loads\<close> on a \<open>str\<close>: a leading byte order mark is refused;
  \<open>JSONDecoder.decode\<close> skips whitespace, reads one value and refuses extra data.
  The limits of the interpreter (the recursion depth, the number of digits that
  \<open>int\<close> converts) are not modelled: where they are exceeded the decoder raises,
  which \<open>load_fn_keys\<close> answers like every other error of the decoder.
\<close>

definition loads :: "pystr \<Rightarrow> py_error + pyval" where
  "loads s =
     (if take 1 s = [0xFEFF] then Inl JSONDecodeError
      else
        (case scan_once (skip_ws s) of
           Inl e \<Rightarrow> Inl e
         | Inr (obj, r) \<Rightarrow> if skip_ws r = [] then Inr obj else Inl JSONDecodeError))"

section \<open>The configuration file\<close>

text \<open>
  What the program sees of the file system is the configuration directory and the one
  entry \<open>fn_key_helper.json\<close> in it. An entry is \<open>readable\<close> when
  \<open>open(config_file, "r")\<close> succeeds and \<open>writable\<close> when
  \<open>open(config_file, "w")\<close> does (a directory of that name is neither). Its
  \<open>content\<close> is the text that \<open>f.read()\<close> returns, or \<open>None\<close> when
  the bytes do not decode.
\<close>

record entry =
  readable :: bool
  writable :: bool
  content :: "pystr option"

text \<open>
  \<open>Blocked\<close>: \<open>os.makedirs(config_dir, exist_ok=True)\<close> raises (no location,
  a file in the way, a parent that cannot be written). \<open>Absent\<close>: the directory
  is missing and can be made. \<open>Present\<close>: the directory exists, with the entry or
  without it.
\<close>

datatype config_dir = Blocked | Absent | Present "entry option"

text \<open>
  \<open>may_create\<close>: a missing entry can be created. \<open>capacity\<close>: how many
  characters the device takes for the entry (\<open>None\<close>: no limit).
\<close>

record filesystem =
  config_dir :: config_dir
  may_create :: bool
  capacity :: "nat option"

definition get_config_path :: "filesystem \<Rightarrow> (py_error + unit) \<times> filesystem" where
  "get_config_path fs =
     (case config_dir fs of
        Blocked \<Rightarrow> (Inl OSError, fs)
      | Absent \<Rightarrow> (Inr (), fs\<lparr>config_dir := Present None\<rparr>)
      | Present e \<Rightarrow> (Inr (), fs))"

text \<open>A \<open>dict\<close> of strings as a Python value.\<close>

definition str_dict :: "(pystr \<times> pystr) list \<Rightarrow> (pystr \<times> pyval) list" where
  "str_dict m = map (\<lambda>(key, desc). (key, PStr desc)) m"

definition default_keys :: "(pystr \<times> pystr) list" where
  "default_keys =
     [(str ''F1'', str ''Dim Screen''),
      (str ''F2'', str ''Brighten Screen''),
      (str ''F3'', str ''??''),
      (str ''F4'', str ''?''),
      (str ''F5'', str ''Dim keyboard LED''),
      (str ''F6'', str ''Brighten keyboard LED''),
      (str ''F7'', str ''Rewind''),
      (str ''F8'', str ''Play/Pause''),
      (str ''F9'', str ''Fastforward''),
      (str ''F10'', str ''Mute''),
      (str ''F11'', str ''Lower Volume''),
      (str ''F12'', str ''Increase Volume'')]"

text \<open>\<open>with open(config_file, "r") as f: return json.load(f)\<close>\<close>

definition json_load :: "entry \<Rightarrow> py_error + pyval" where
  "json_load f =
     (if \<not> readable f then Inl OSError
      else case content f of None \<Rightarrow> Inl UnicodeDecodeError | Some txt \<Rightarrow> loads txt)"

definition load_fn_keys :: "filesystem \<Rightarrow> (py_error + pyval) \<times> filesystem" where
  "load_fn_keys fs =
     (case get_config_path fs of
        (Inl e, fs') \<Rightarrow> (Inl e, fs')
      | (Inr config_file, fs') \<Rightarrow>
          (case config_dir fs' of
             Present (Some f) \<Rightarrow>
               (case json_load f of
                  Inr obj \<Rightarrow> (Inr obj, fs')
                | Inl e \<Rightarrow> (Inr (PDict (str_dict default_keys)), fs'))
           | _ \<Rightarrow> (Inr (PDict (str_dict default_keys)), fs')))"

text \<open>
  \<open>open(config_file, "w")\<close>: an entry that exists is truncated; a missing one is
  created, readable and writable.
\<close>

definition open_w :: "filesystem \<Rightarrow> (py_error + unit) \<times> filesystem" where
  "open_w fs =
     (case config_dir fs of
        Present (Some f) \<Rightarrow>
          if writable f then (Inr (), fs\<lparr>config_dir := Present (Some (f\<lparr>content := Some []\<rparr>))\<rparr>)
          else (Inl OSError, fs)
      | Present None \<Rightarrow>
          if may_create fs
          then (Inr (), fs\<lparr>config_dir :=
                  Present (Some \<lparr>readable = True, writable = True, content = Some []\<rparr>)\<rparr>)
          else (Inl OSError, fs)
      | _ \<Rightarrow> (Inl OSError, fs))"

text \<open>
  The chunks that \<open>json.dump\<close> writes, up to the end of the \<open>with\<close> block:
  what the device does not take is lost and the error is raised.
\<close>

definition write_text :: "pystr \<Rightarrow> filesystem \<Rightarrow> (py_error + unit) \<times> filesystem" where
  "write_text txt fs =
     (case config_dir fs of
        Present (Some f) \<Rightarrow>
          (case capacity fs of
             None \<Rightarrow> (Inr (), fs\<lparr>config_dir := Present (Some (f\<lparr>content := Some txt\<rparr>))\<rparr>)
           | Some n \<Rightarrow>
               if length txt \<le> n
               then (Inr (), fs\<lparr>config_dir := Present (Some (f\<lparr>content := Some txt\<rparr>))\<rparr>)
               else (Inl OSError,
                     fs\<lparr>config_dir := Present (Some (f\<lparr>content := Some (take n txt)\<rparr>))\<rparr>))
      | _ \<Rightarrow> (Inl OSError, fs))"

definition save_fn_keys :: "(pystr \<times> pystr) list \<Rightarrow> filesystem \<Rightarrow> (py_error + unit) \<times> filesystem" where
  "save_fn_keys fn_keys fs =
     (case get_config_path fs of
        (Inl e, fs') \<Rightarrow> (Inl e, fs')
      | (Inr config_file, fs') \<Rightarrow>
          (case open_w fs' of
             (Inl e, fs'') \<Rightarrow> (Inl e, fs'')
           | (Inr f, fs'') \<Rightarrow> write_text (iterencode_dict fn_keys) fs''))"

section \<open>Objects\<close>

text \<open>
  The \<open>dict\<close> objects of the program live in a store: an attribute such as
  \<open>self.fn_keys\<close> holds the address of its \<open>dict\<close>, and \<open>copy\<close> and a
  dict comprehension make a new object. Strings are immutable and kept as values.
\<close>

type_synonym addr = nat

type_synonym heap = "(pystr \<times> pyval) list list"

definition new_dict :: "heap \<Rightarrow> (pystr \<times> pyval) list \<Rightarrow> addr \<times> heap" where
  "new_dict h d = (length h, h @ [d])"

definition deref :: "heap \<Rightarrow> addr \<Rightarrow> (pystr \<times> pyval) list option" where
  "deref h a = (if a < length h then Some (h ! a) else None)"

section \<open>\<open>SettingsDialog\<close>\<close>

text \<open>
  Qt keeps a text as a \<open>QString\<close>, a sequence of UTF-16 code units (numbers
  below \<open>0x10000\<close>). PyQt makes the \<open>QString\<close> of a \<open>str\<close> code
  point by code point: a code point below \<open>0x10000\<close> is one unit, also when it
  is a surrogate, and a code point from \<open>0x10000\<close> on is a surrogate pair
  (\<open>QChar::highSurrogate\<close>, \<open>QChar::lowSurrogate\<close>). On the way back it
  joins a high surrogate with a low surrogate that follows it
  (\<open>QChar::surrogateToUcs4\<close>) and takes every other unit as a code point.

  A \<open>str\<close> that has a code point from \<open>0x10000\<close> on goes through
  \<open>QString::fromUcs4\<close>, which may take U+FEFF for a byte order mark. What
  becomes of U+FEFF there is left out of \<open>AsQString\<close>; the statements on the
  texts of the fields are about the other strings (\<open>plain\<close> below).
\<close>

type_synonym qstring = "nat list"

fun AsQString :: "pystr \<Rightarrow> qstring" where
  "AsQString [] = []"
| "AsQString (c # cs) =
     (if c < 0x10000 then [c] else [c div 0x400 + 0xD7C0, c mod 0x400 + 0xDC00]) @ AsQString cs"

fun FromQString :: "qstring \<Rightarrow> pystr" where
  "FromQString (u # v # us) =
     (if is_high u \<and> is_low v then (u * 0x400 + v - 0x35FDC00) # FromQString us
      else u # FromQString (v # us))"
| "FromQString us = us"

text \<open>
  A \<open>QLineEdit\<close> is modelled by the \<open>QString\<close> it holds.
  \<open>QLineEdit(desc)\<close> takes a \<open>str\<close>; with \<open>None\<close> the field is empty;
  any other value matches no overload of the constructor.
\<close>

definition QLineEdit :: "pyval \<Rightarrow> py_error + qstring" where
  "QLineEdit desc =
     (case desc of PStr s \<Rightarrow> Inr (AsQString s) | PNone \<Rightarrow> Inr [] | _ \<Rightarrow> Inl TypeError)"

record dialog =
  dlg_fn_keys :: addr
  edits :: "(pystr \<times> qstring) list"

text \<open>The loop \<open>for key, desc in self.fn_keys.items()\<close> of the constructor.\<close>

fun make_edits :: "(pystr \<times> pyval) list \<Rightarrow> py_error + (pystr \<times> qstring) list" where
  "make_edits [] = Inr []"
| "make_edits ((key, desc) # items) =
     (case QLineEdit desc of
        Inl e \<Rightarrow> Inl e
      | Inr edit \<Rightarrow>
          (case make_edits items of
             Inl e \<Rightarrow> Inl e
           | Inr es \<Rightarrow> Inr ((key, edit) # es)))"

definition SettingsDialog_init :: "heap \<Rightarrow> addr \<Rightarrow> (py_error + dialog) \<times> heap" where
  "SettingsDialog_init h fn_keys =
     (case deref h fn_keys of
        None \<Rightarrow> (Inl AttributeError, h)
      | Some d \<Rightarrow>
          (let (copy, h') = new_dict h d
           in case make_edits d of
                Inl e \<Rightarrow> (Inl e, h')
              | Inr es \<Rightarrow> (Inr \<lparr>dlg_fn_keys = copy, edits = es\<rparr>, h')))"

text \<open>
  \<open>dialog.exec_()\<close> runs until the user answers. What the user does in between is
  a sequence of fields and the texts put into them, each in place of what the field
  held; only a field that the form shows can be typed into. The text comes from the
  keyboard or the clipboard and is a \<open>QString\<close>. A field keeps at most
  \<open>maxLength\<close> code units of a text that is put into it, which is 32767 for a
  \<open>QLineEdit\<close> as the constructor leaves it; the text that the constructor got
  is not cut.
\<close>

datatype dialog_code = Rejected | Accepted

record interaction =
  typed :: "(pystr \<times> qstring) list"
  answer :: dialog_code

definition maxLength :: nat where
  "maxLength = 32767"

definition setText :: "pystr \<Rightarrow> qstring \<Rightarrow> (pystr \<times> qstring) list \<Rightarrow> (pystr \<times> qstring) list" where
  "setText field txt es =
     map (\<lambda>(key, edit). if key = field then (key, take maxLength txt) else (key, edit)) es"

definition exec :: "interaction \<Rightarrow> dialog \<Rightarrow> dialog_code \<times> dialog" where
  "exec user dlg =
     (answer user, dlg\<lparr>edits := foldl (\<lambda>es (field, txt). setText field txt es) (edits dlg) (typed user)\<rparr>)"

text \<open>
  \<open>{key: edit.text() for key, edit in self.edits.items()}\<close>, where
  \<open>edit.text()\<close> is the \<open>str\<close> of the \<open>QString\<close> that the field holds.
\<close>

definition get_updated_keys :: "dialog \<Rightarrow> (pystr \<times> pystr) list" where
  "get_updated_keys dlg = map (\<lambda>(key, edit). (key, FromQString edit)) (edits dlg)"

section \<open>\<open>FnKeyWindow\<close>\<close>

text \<open>
  The truth value and the \<open>str()\<close> of a value that is not a string depend on
  how Python reads and prints a \<open>float\<close>; they are parameters of the model.
\<close>

record python =
  float_bool :: "pystr \<Rightarrow> bool"
  str_of :: "pyval \<Rightarrow> pystr"

definition truth :: "python \<Rightarrow> pyval \<Rightarrow> bool" where
  "truth py v =
     (case v of
        PNone \<Rightarrow> False
      | PBool b \<Rightarrow> b
      | PInt i \<Rightarrow> i \<noteq> 0
      | PFloat literal \<Rightarrow> float_bool py literal
      | PStr s \<Rightarrow> s \<noteq> []
      | PList xs \<Rightarrow> xs \<noteq> []
      | PDict kvs \<Rightarrow> kvs \<noteq> [])"

definition format :: "python \<Rightarrow> pyval \<Rightarrow> pystr" where
  "format py v = (case v of PStr s \<Rightarrow> s | _ \<Rightarrow> str_of py v)"

text \<open>
  \<open>f"<b>{key}:</b> {desc}" if desc else f"<b>{key}:</b> (No function)"\<close>
\<close>

definition label_text :: "python \<Rightarrow> pystr \<Rightarrow> pyval \<Rightarrow> pystr" where
  "label_text py key desc =
     (if truth py desc then str ''<b>'' @ key @ str '':</b> '' @ format py desc
      else str ''<b>'' @ key @ str '':</b> (No function)'')"

text \<open>
  \<open>key_labels\<close> holds, for each key, the text of its \<open>QLabel\<close>, in the order
  in which the labels were added to the layout.
\<close>

record window =
  fn_keys :: addr
  key_labels :: "(pystr \<times> pystr) list"

definition FnKeyWindow_init ::
  "python \<Rightarrow> filesystem \<times> heap \<Rightarrow> (py_error + window) \<times> filesystem \<times> heap" where
  "FnKeyWindow_init py st =
     (case st of (fs, h) \<Rightarrow>
        (case load_fn_keys fs of
           (Inl e, fs') \<Rightarrow> (Inl e, fs', h)
         | (Inr obj, fs') \<Rightarrow>
             (case obj of
                PDict d \<Rightarrow>
                  (let (a, h') = new_dict h d
                   in (Inr \<lparr>fn_keys = a,
                             key_labels = map (\<lambda>(key, desc). (key, label_text py key desc)) d\<rparr>,
                       fs', h'))
              | _ \<Rightarrow> (Inl AttributeError, fs', h))))"

text \<open>\<open>desc = self.fn_keys.get(key, "")\<close>\<close>

definition get :: "(pystr \<times> pyval) list \<Rightarrow> pystr \<Rightarrow> pyval \<Rightarrow> pyval" where
  "get d key dflt = (case map_of d key of None \<Rightarrow> dflt | Some v \<Rightarrow> v)"

definition update_key_labels :: "python \<Rightarrow> heap \<Rightarrow> window \<Rightarrow> py_error + window" where
  "update_key_labels py h w =
     (case deref h (fn_keys w) of
        None \<Rightarrow> Inl AttributeError
      | Some d \<Rightarrow>
          Inr (w\<lparr>key_labels :=
                 map (\<lambda>(key, label). (key, label_text py key (get d key (PStr [])))) (key_labels w)\<rparr>))"

definition show_settings ::
  "python \<Rightarrow> interaction \<Rightarrow> window \<times> filesystem \<times> heap
     \<Rightarrow> (py_error + unit) \<times> window \<times> filesystem \<times> heap" where
  "show_settings py user st =
     (case st of (w, fs, h) \<Rightarrow>
        (case SettingsDialog_init h (fn_keys w) of
           (Inl e, h1) \<Rightarrow> (Inl e, w, fs, h1)
         | (Inr dlg, h1) \<Rightarrow>
             (case exec user dlg of
                (Rejected, dlg') \<Rightarrow> (Inr (), w, fs, h1)
              | (Accepted, dlg') \<Rightarrow>
                  (let updated = get_updated_keys dlg';
                       (a, h2) = new_dict h1 (str_dict updated);
                       w1 = w\<lparr>fn_keys := a\<rparr>
                   in case save_fn_keys updated fs of
                        (Inl e, fs') \<Rightarrow> (Inl e, w1, fs', h2)
                      | (Inr u, fs') \<Rightarrow>
                          (case update_key_labels py h2 w1 of
                             Inl e \<Rightarrow> (Inl e, w1, fs', h2)
                           | Inr w2 \<Rightarrow> (Inr (), w2, fs', h2))))))"

section \<open>Notions used in the statements\<close>

text \<open>The entry exists and can be opened for reading.\<close>

definition can_read :: "filesystem \<Rightarrow> bool" where
  "can_read fs = (case config_dir fs of Present (Some f) \<Rightarrow> readable f | _ \<Rightarrow> False)"

text \<open>
  A directory without the entry, and one whose entry holds a given text; both take
  every write.
\<close>

definition fresh_fs :: filesystem where
  "fresh_fs = \<lparr>config_dir = Present None, may_create = True, capacity = None\<rparr>"

definition fs_with :: "pystr \<Rightarrow> filesystem" where
  "fs_with txt = \<lparr>config_dir = Present (Some \<lparr>readable = True, writable = True, content = Some txt\<rparr>),
                  may_create = True, capacity = None\<rparr>"

text \<open>
  The directory cannot be made; the entry can be opened neither for reading nor for
  writing; the entry holds the text \<open>{"F1": "Dim\<close>, cut off in the second string.
\<close>

definition blocked_fs :: filesystem where
  "blocked_fs = \<lparr>config_dir = Blocked, may_create = True, capacity = None\<rparr>"

definition locked_fs :: filesystem where
  "locked_fs = \<lparr>config_dir = Present (Some \<lparr>readable = False, writable = False, content = None\<rparr>),
                may_create = True, capacity = None\<rparr>"

definition truncated :: pystr where
  "truncated = [0x7B, 0x22] @ str ''F1'' @ [0x22] @ str '': '' @ [0x22] @ str ''Dim''"

text \<open>
  When \<open>save_fn_keys\<close> can write: the directory is there or can be made, the
  entry can be opened for writing or created, and the device takes the whole text.
\<close>

definition can_write :: "(pystr \<times> pystr) list \<Rightarrow> filesystem \<Rightarrow> bool" where
  "can_write m fs =
     ((case config_dir fs of
         Blocked \<Rightarrow> False
       | Absent \<Rightarrow> may_create fs
       | Present None \<Rightarrow> may_create fs
       | Present (Some f) \<Rightarrow> writable f)
      \<and> (case capacity fs of None \<Rightarrow> True | Some n \<Rightarrow> length (iterencode_dict m) \<le> n))"

text \<open>
  The row of the display for a key and its description, \<open><b>key:</b> description\<close>,
  with the placeholder for an empty description; and the rows of a map.
\<close>

definition row :: "pystr \<Rightarrow> pystr \<Rightarrow> pystr" where
  "row key desc = str ''<b>'' @ key @ str '':</b> '' @ (if desc = [] then str ''(No function)'' else desc)"

definition rows :: "(pystr \<times> pystr) list \<Rightarrow> (pystr \<times> pystr) list" where
  "rows m = map (\<lambda>(key, desc). (key, row key desc)) m"

text \<open>The fields that the dialog makes for a map of strings.\<close>

definition fields :: "(pystr \<times> pystr) list \<Rightarrow> (pystr \<times> qstring) list" where
  "fields m = map (\<lambda>(key, desc). (key, AsQString desc)) m"

text \<open>No entry \<open>fn_key_helper.json\<close> exists: \<open>os.path.exists\<close> is false.\<close>

definition no_config_file :: "filesystem \<Rightarrow> bool" where
  "no_config_file fs = (case config_dir fs of Present (Some f) \<Rightarrow> False | _ \<Rightarrow> True)"

text \<open>Some choice of the two parameters of \<open>python\<close>.\<close>

definition any_python :: python where
  "any_python = \<lparr>float_bool = (\<lambda>literal. True), str_of = (\<lambda>v. [])\<rparr>"

text \<open>A map whose keys are not in the order of the keyboard.\<close>

definition swapped :: "(pystr \<times> pystr) list" where
  "swapped = [(str ''F2'', str ''Brighten Screen''), (str ''F1'', str ''Dim Screen'')]"

section \<open>Decoding what was encoded\<close>

text \<open>
  The decoder joins an escaped high surrogate with an escaped low surrogate that
  follows it. A string comes back from its encoding when it has no high surrogate code
  point directly before a low one.
\<close>

text \<open>
  The text after an escape does not start with the escape of a low surrogate.
\<close>

definition safe_ahead :: "pystr \<Rightarrow> bool" where
  "safe_ahead T = (\<forall>l1 l2 l3 l4 r2. T = 0x5C # 0x75 # l1 # l2 # l3 # l4 # r2 \<longrightarrow>
      (\<exists>u2. decode_uXXXX l1 l2 l3 l4 = Some u2 \<and> \<not> is_low u2))"

fun well_paired :: "pystr \<Rightarrow> bool" where
  "well_paired (c # d # cs) = (\<not> (is_high c \<and> is_low d) \<and> well_paired (d # cs))"
| "well_paired _ = True"

text \<open>
  The strings that \<open>json\<close> reads back as they were written, and the maps of such
  strings (a \<open>dict\<close> has pairwise distinct keys).
\<close>

definition faithful :: "pystr \<Rightarrow> bool" where
  "faithful s = (is_str s \<and> well_paired s)"

definition faithful_map :: "(pystr \<times> pystr) list \<Rightarrow> bool" where
  "faithful_map m = (distinct (map fst m) \<and> list_all (\<lambda>(key, desc). faithful key \<and> faithful desc) m)"

text \<open>
  The strings that the statements on the texts of the fields are about: no high
  surrogate directly before a low one, and no U+FEFF together with a code point from
  \<open>0x10000\<close> on.
\<close>

definition plain :: "pystr \<Rightarrow> bool" where
  "plain s = (faithful s \<and> \<not> (0xFEFF \<in> set s \<and> list_ex (\<lambda>c. 0x10000 \<le> c) s))"

lemma push_bit_or_add:
  fixes a x :: nat
  assumes "x < 2 ^ n"
  shows "push_bit n a OR x = a * 2 ^ n + x"
proof -
  from assms have x: "take_bit n x = x" by (simp add: take_bit_eq_mod)
  have "push_bit n a AND take_bit n x = 0"
    by (rule bit_eqI) (auto simp: bit_simps)
  then have "push_bit n a AND x = 0" by (simp only: x)
  then have "push_bit n a + x = push_bit n a OR x" by (rule disjunctive_add_eq_or)
  then show ?thesis by (simp add: push_bit_eq_mult)
qed

lemma hex_value_hexdigit: "d < 16 \<Longrightarrow> hex_value (hexdigit d) = Some d"
  by (auto simp: hex_value_def hexdigit_def)

lemma hex_digits_sum:
  fixes n :: nat
  assumes "n < 65536"
  shows "((n div 4096 mod 16 * 16 + n div 256 mod 16) * 16 + n div 16 mod 16) * 16 + n mod 16 = n"
proof -
  define a where "a = n div 16"
  define b where "b = a div 16"
  define c where "c = b div 16"
  have b: "n div 256 = b" unfolding b_def a_def by (simp add: div_mult2_eq)
  have c: "n div 4096 = c" unfolding c_def b_def a_def by (simp add: div_mult2_eq)
  have "c < 16" using assms c by simp
  then have c16: "c mod 16 = c" by simp
  have "((c * 16 + b mod 16) * 16 + a mod 16) * 16 + n mod 16 = (b * 16 + a mod 16) * 16 + n mod 16"
    unfolding c_def by simp
  also have "\<dots> = a * 16 + n mod 16" unfolding b_def by simp
  also have "\<dots> = n" unfolding a_def by simp
  finally show ?thesis by (simp add: b c c16 a_def)
qed

lemma decode_hex4:
  assumes "n < 65536"
  shows "decode_uXXXX (hexdigit (n div 4096 mod 16)) (hexdigit (n div 256 mod 16))
            (hexdigit (n div 16 mod 16)) (hexdigit (n mod 16)) = Some n"
proof -
  have d: "\<And>k. hex_value (hexdigit (k mod 16)) = Some (k mod 16)"
    by (rule hex_value_hexdigit) simp
  show ?thesis
    unfolding decode_uXXXX_def d
    by (simp only: prod.case option.case hex_digits_sum [OF assms])
qed

lemma and_3ff: "(n::nat) AND 0x3FF = n mod 1024"
proof -
  have "(0x3FF::nat) = mask 10" by (simp add: mask_eq_exp_minus_1)
  then have "n AND 0x3FF = take_bit 10 n" by (simp only: take_bit_eq_mask)
  then show ?thesis by (simp add: take_bit_eq_mod)
qed

lemma or_d800: "x < 1024 \<Longrightarrow> (0xD800::nat) OR x = 0xD800 + x"
  using push_bit_or_add [of x 10 54] by (simp add: push_bit_eq_mult)

lemma or_dc00: "x < 1024 \<Longrightarrow> (0xDC00::nat) OR x = 0xDC00 + x"
  using push_bit_or_add [of x 10 55] by (simp add: push_bit_eq_mult)

lemma join_surrogates_add:
  "lo < 1024 \<Longrightarrow> join_surrogates (0xD800 + hi) (0xDC00 + lo) = 0x10000 + hi * 1024 + lo"
  using push_bit_or_add [of lo 10 hi] by (simp add: join_surrogates_def)

lemma replace_astral:
  assumes "0x10000 \<le> c" "c < 0x110000"
  shows "replace c = 0x5C # 0x75 # hex4 (0xD800 + (c - 0x10000) div 1024)
                     @ 0x5C # 0x75 # hex4 (0xDC00 + (c - 0x10000) mod 1024)"
proof -
  have "(c - 0x10000) div 1024 < 1024" using assms by simp
  then have "drop_bit 10 (c - 0x10000) AND 0x3FF = (c - 0x10000) div 1024"
    by (simp add: and_3ff drop_bit_eq_div)
  then show ?thesis using assms
    by (simp add: replace_def Let_def and_3ff or_d800 or_dc00 str_def)
qed

lemma hex4_decode:
  assumes "n < 65536"
  obtains h1 h2 h3 h4 where "hex4 n = [h1, h2, h3, h4]" "decode_uXXXX h1 h2 h3 h4 = Some n"
  using decode_hex4 [OF assms] unfolding hex4_def by blast

lemma scanstring_u_single_gen:
  assumes "decode_uXXXX h1 h2 h3 h4 = Some n" "\<not> is_high n"
  shows "scanstring (0x5C # 0x75 # h1 # h2 # h3 # h4 # T) = append_char n (scanstring T)"
  using assms by (subst scanstring.simps) (simp split: list.split)

lemma scanstring_u_single:
  assumes "n < 65536" "\<not> is_high n"
  shows "scanstring (0x5C # 0x75 # hex4 n @ T) = append_char n (scanstring T)"
proof -
  obtain h1 h2 h3 h4 where h: "hex4 n = [h1, h2, h3, h4]" "decode_uXXXX h1 h2 h3 h4 = Some n"
    using assms(1) by (rule hex4_decode)
  show ?thesis using scanstring_u_single_gen [OF h(2) assms(2)] by (simp add: h(1))
qed

lemma scanstring_u_pair_gen:
  assumes "decode_uXXXX h1 h2 h3 h4 = Some uni" "is_high uni"
    and "decode_uXXXX l1 l2 l3 l4 = Some uni2" "is_low uni2"
  shows "scanstring (0x5C # 0x75 # h1 # h2 # h3 # h4 # 0x5C # 0x75 # l1 # l2 # l3 # l4 # T)
         = append_char (join_surrogates uni uni2) (scanstring T)"
  using assms by (subst scanstring.simps) simp

lemma scanstring_u_pair:
  assumes "hi < 1024" "lo < 1024"
  shows "scanstring (0x5C # 0x75 # hex4 (0xD800 + hi) @ 0x5C # 0x75 # hex4 (0xDC00 + lo) @ T)
         = append_char (0x10000 + hi * 1024 + lo) (scanstring T)"
proof -
  have "0xD800 + hi < 65536" using assms by simp
  then obtain h1 h2 h3 h4 where
    h: "hex4 (0xD800 + hi) = [h1, h2, h3, h4]" "decode_uXXXX h1 h2 h3 h4 = Some (0xD800 + hi)"
    by (rule hex4_decode)
  have "0xDC00 + lo < 65536" using assms by simp
  then obtain l1 l2 l3 l4 where
    l: "hex4 (0xDC00 + lo) = [l1, l2, l3, l4]" "decode_uXXXX l1 l2 l3 l4 = Some (0xDC00 + lo)"
    by (rule hex4_decode)
  have "is_high (0xD800 + hi)" "is_low (0xDC00 + lo)"
    using assms by (simp_all add: is_high_def is_low_def)
  from scanstring_u_pair_gen [OF h(2) this(1) l(2) this(2)]
  show ?thesis using assms by (simp add: h(1) l(1) join_surrogates_add)
qed

lemma scanstring_u_high_gen:
  assumes "decode_uXXXX h1 h2 h3 h4 = Some n" "safe_ahead T"
  shows "scanstring (0x5C # 0x75 # h1 # h2 # h3 # h4 # T) = append_char n (scanstring T)"
  using assms unfolding safe_ahead_def
  by (subst scanstring.simps) (auto split: list.split)

lemma scanstring_u_high:
  assumes "n < 65536" "safe_ahead T"
  shows "scanstring (0x5C # 0x75 # hex4 n @ T) = append_char n (scanstring T)"
proof -
  obtain h1 h2 h3 h4 where h: "hex4 n = [h1, h2, h3, h4]" "decode_uXXXX h1 h2 h3 h4 = Some n"
    using assms(1) by (rule hex4_decode)
  show ?thesis using scanstring_u_high_gen [OF h(2) assms(2)] by (simp add: h(1))
qed

lemma scanstring_replace:
  assumes "c < 0x110000" and "is_high c \<Longrightarrow> safe_ahead T"
  shows "scanstring (replace c @ T) = append_char c (scanstring T)"
proof -
  consider (short) "c = 0x5C \<or> c = 0x22 \<or> c = 0x08 \<or> c = 0x0C \<or> c = 0x0A \<or> c = 0x0D \<or> c = 0x09"
    | (plain) "0x20 \<le> c" "c \<le> 0x7E" "c \<noteq> 0x5C" "c \<noteq> 0x22"
    | (bmp) "c < 0x20 \<or> 0x7E < c" "c < 0x10000" "c \<noteq> 0x08" "c \<noteq> 0x0C" "c \<noteq> 0x0A" "c \<noteq> 0x0D" "c \<noteq> 0x09"
    | (astral) "0x10000 \<le> c"
    by linarith
  then show ?thesis
  proof cases
    case short
    then show ?thesis
      by (elim disjE) (simp_all add: replace_def BACKSLASH_def str_def scanstring.simps)
  next
    case plain
    then show ?thesis
      by (simp add: replace_def scanstring.simps)
  next
    case bmp
    then have r: "replace c = 0x5C # 0x75 # hex4 c" by (auto simp: replace_def str_def)
    show ?thesis
    proof (cases "is_high c")
      case True
      then show ?thesis using bmp(2) assms(2) by (simp add: r scanstring_u_high)
    next
      case False
      then show ?thesis using bmp(2) by (simp add: r scanstring_u_single)
    qed
  next
    case astral
    let ?n = "c - 0x10000"
    have "?n div 1024 < 1024" "?n mod 1024 < 1024" using assms(1) by simp_all
    from scanstring_u_pair [OF this, of T] astral assms(1) show ?thesis
      by (simp add: replace_astral)
  qed
qed

lemma safe_ahead_quote: "safe_ahead (0x22 # rest)"
  by (simp add: safe_ahead_def)

lemma safe_ahead_replace:
  assumes "d < 0x110000" "\<not> is_low d"
  shows "safe_ahead (replace d @ T)"
proof (cases "0x10000 \<le> d")
  case True
  let ?n = "d - 0x10000"
  have hi: "?n div 1024 < 1024" using assms(1) by simp
  then have "0xD800 + ?n div 1024 < 65536" by simp
  then obtain h1 h2 h3 h4 where
    h: "hex4 (0xD800 + ?n div 1024) = [h1, h2, h3, h4]"
       "decode_uXXXX h1 h2 h3 h4 = Some (0xD800 + ?n div 1024)"
    by (rule hex4_decode)
  have "\<not> is_low (0xD800 + ?n div 1024)" using hi by (simp add: is_low_def)
  then show ?thesis using True assms(1) h
    by (simp add: replace_astral safe_ahead_def)
next
  case False
  then have lt: "d < 65536" by simp
  then obtain h1 h2 h3 h4 where
    h: "hex4 d = [h1, h2, h3, h4]" "decode_uXXXX h1 h2 h3 h4 = Some d"
    by (rule hex4_decode)
  show ?thesis using lt assms(2) h
    by (auto simp: replace_def safe_ahead_def str_def)
qed

lemma scanstring_encoded:
  "is_str s \<Longrightarrow> well_paired s \<Longrightarrow>
   scanstring (concat (map replace s) @ 0x22 # rest) = Inr (s, rest)"
proof (induction s)
  case Nil
  then show ?case by (simp add: scanstring.simps)
next
  case (Cons c cs)
  let ?T = "concat (map replace cs) @ 0x22 # rest"
  have c: "c < 0x110000" and cs: "is_str cs"
    using Cons.prems(1) by (simp_all add: is_str_def)
  have "well_paired cs" using Cons.prems(2) by (cases cs) simp_all
  with cs have IH: "scanstring ?T = Inr (cs, rest)" by (rule Cons.IH)
  have "safe_ahead ?T" if "is_high c"
  proof (cases cs)
    case Nil
    then show ?thesis by (simp add: safe_ahead_quote)
  next
    case (Cons d ds)
    then have "d < 0x110000" "\<not> is_low d"
      using cs Cons.prems(2) that by (simp_all add: is_str_def)
    then show ?thesis unfolding Cons by (simp add: safe_ahead_replace)
  qed
  from scanstring_replace [OF c this] IH show ?case
    by (simp add: append_char_def)
qed

section \<open>The decoder consumes its input\<close>

lemma length_dropWhile_less: "length (dropWhile P xs) < Suc (length xs)"
  using length_dropWhile_le [of P xs] by simp

lemma match_integer_shorter: "match_integer s = Some (i, r) \<Longrightarrow> length r < length s"
  by (auto simp: match_integer_def Let_def length_dropWhile_less
      intro: less_trans [OF length_dropWhile_less] split: list.splits if_splits)

lemma match_frac_le: "match_frac s = (f, r) \<Longrightarrow> length r \<le> length s"
  using length_dropWhile_le [of is_digit]
  by (auto simp: match_frac_def le_Suc_eq split: list.splits if_splits)

lemma match_exp_le: "match_exp s = (e, r) \<Longrightarrow> length r \<le> length s"
  using length_dropWhile_le [of is_digit]
  by (auto simp: match_exp_def Let_def le_Suc_eq split: list.splits if_splits)

lemma match_number_shorter: "match_number s = Some (x, r) \<Longrightarrow> length r < length s"
  by (auto simp: match_number_def Let_def split: option.splits prod.splits
      dest!: match_integer_shorter match_frac_le match_exp_le)

lemma scan_atom_consumes: "consumes (length s) (scan_atom s)"
proof (cases s)
  case Nil
  then show ?thesis
    by (simp add: scan_atom_def str_def match_number_def match_integer_def)
next
  case (Cons c cs)
  have "length r < Suc (length cs)" if "match_number (c # cs) = Some (x, r)" for x r
    using match_number_shorter [OF that] by simp
  then show ?thesis
    unfolding scan_atom_def Cons by (auto split: option.split)
qed

lemma consumesD: "consumes n res \<Longrightarrow> res = Inr (v, r) \<Longrightarrow> length r < n"
  by simp

lemma skip_ws_Cons_le: "skip_ws r = c # cs \<Longrightarrow> Suc (length cs) \<le> length r"
  using length_skip_ws [of r] by simp

lemma parser_consumes:
  "consumes (length s) (scan_once s)"
  "consumes (length a) (JSONArray a)"
  "consumes (length b) (JSONObject b)"
proof (induction s and a and b rule: scan_once_JSONArray_JSONObject.induct)
  case 1
  show ?case by (simp add: scan_once.simps)
next
  case (2 nextchar rest)
  have str: "length r < Suc (length rest)" if "scanstring rest = Inr (v, r)" for v r
    using scanstring_shorter [OF that] by simp
  have obj: "length r < Suc (length rest)"
    if "skip_ws rest = c # cs" "JSONObject cs = Inr (pairs, r)" "nextchar \<noteq> 0x22" "nextchar = 0x7B"
       "c \<noteq> 0x7D" "c = 0x22" for c cs pairs r
    using consumesD [OF "2.IH"(1) that(2)] that skip_ws_Cons_le [OF that(1)] by simp
  have arr: "length r < Suc (length rest)"
    if "skip_ws rest = c # cs" "JSONArray (c # cs) = Inr (vs, r)" "nextchar \<noteq> 0x22"
       "nextchar \<noteq> 0x7B" "nextchar = 0x5B" "c \<noteq> 0x5D" for c cs vs r
    using consumesD [OF "2.IH"(2) that(2)] that skip_ws_Cons_le [OF that(1)] by simp
  have emp: "length cs < Suc (length rest)" if "skip_ws rest = c # cs" for c cs
    using skip_ws_Cons_le [OF that] by simp
  have atom: "consumes (Suc (length rest)) (scan_atom (nextchar # rest))"
    using scan_atom_consumes [of "nextchar # rest"] by simp
  show ?case
    by (subst scan_once.simps)
      (auto simp: atom split: sum.split list.split intro: str obj arr emp)
next
  case (3 s)
  have one: "length cs < length s"
    if "scan_once s = Inr (v, r)" "skip_ws r = c # cs" for v r c cs
    using consumesD [OF "3.IH"(1) that(1)] skip_ws_Cons_le [OF that(2)] by simp
  have more: "length r' < length s"
    if "scan_once s = Inr (v, r)" "skip_ws r = c # cs" "c \<noteq> 0x5D" "c = 0x2C"
       "length cs < length s" "JSONArray (skip_ws cs) = Inr (vs, r')" for v r c cs vs r'
  proof -
    have "consumes (length (skip_ws cs)) (JSONArray (skip_ws cs))"
      using "3.IH"(2) that by blast
    from consumesD [OF this that(6)] length_skip_ws [of cs] that(5) show ?thesis by simp
  qed
  show ?case
    by (subst JSONArray.simps) (auto split: sum.split list.split intro: one more)
next
  case (4 s)
  have val: "consumes (length (skip_ws cs)) (scan_once (skip_ws cs))"
    if "scanstring s = Inr (key, r)" "skip_ws r = c # cs" "c = 0x3A" for key r c cs
    using "4.IH"(1) that by blast
  have one: "length ds < length s"
    if "scanstring s = Inr (key, r)" "skip_ws r = c # cs" "c = 0x3A"
       "scan_once (skip_ws cs) = Inr (v, r2)" "skip_ws r2 = d # ds" for key r c cs v r2 d ds
    using consumesD [OF val [OF that(1-3)] that(4)] skip_ws_Cons_le [OF that(5)]
      length_skip_ws [of cs] skip_ws_Cons_le [OF that(2)] scanstring_shorter [OF that(1)]
    by simp
  have more: "length r3 < length s"
    if "scanstring s = Inr (key, r)" "skip_ws r = c # cs" "c = 0x3A"
       "scan_once (skip_ws cs) = Inr (v, r2)" "skip_ws r2 = d # ds" "d \<noteq> 0x7D" "d = 0x2C"
       "skip_ws ds = q # qs" "q = 0x22" "length qs < length s" "JSONObject qs = Inr (pairs, r3)"
    for key r c cs v r2 d ds q qs pairs r3
  proof -
    have "consumes (length qs) (JSONObject qs)"
      using "4.IH"(2) that by blast
    from consumesD [OF this that(11)] that(10) show ?thesis by simp
  qed
  show ?case
    by (subst JSONObject.simps) (auto split: sum.split list.split intro: one more)
qed

text \<open>The two tests that bound the recursion never fail.\<close>

lemma JSONArray_unguarded:
  "JSONArray s =
     (case scan_once s of
        Inl e \<Rightarrow> Inl e
      | Inr (v, r) \<Rightarrow>
          (case skip_ws r of
             [] \<Rightarrow> Inl JSONDecodeError
           | c # cs \<Rightarrow>
               if c = 0x5D then Inr ([v], cs)
               else if c = 0x2C then
                 (case JSONArray (skip_ws cs) of
                    Inl e \<Rightarrow> Inl e
                  | Inr (vs, r') \<Rightarrow> Inr (v # vs, r'))
               else Inl JSONDecodeError))"
proof -
  have "length cs < length s" if "scan_once s = Inr (v, r)" "skip_ws r = c # cs" for v r c cs
    using consumesD [OF parser_consumes(1) that(1)] skip_ws_Cons_le [OF that(2)] by simp
  then show ?thesis
    by (subst JSONArray.simps) (auto split: sum.split list.split)
qed

lemma JSONObject_unguarded:
  "JSONObject s =
     (case scanstring s of
        Inl e \<Rightarrow> Inl e
      | Inr (key, r) \<Rightarrow>
          (case skip_ws r of
             [] \<Rightarrow> Inl JSONDecodeError
           | c # cs \<Rightarrow>
               if c \<noteq> 0x3A then Inl JSONDecodeError
               else
                 (case scan_once (skip_ws cs) of
                    Inl e \<Rightarrow> Inl e
                  | Inr (v, r2) \<Rightarrow>
                      (case skip_ws r2 of
                         [] \<Rightarrow> Inl JSONDecodeError
                       | d # ds \<Rightarrow>
                           if d = 0x7D then Inr ([(key, v)], ds)
                           else if d = 0x2C then
                             (case skip_ws ds of
                                [] \<Rightarrow> Inl JSONDecodeError
                              | q # qs \<Rightarrow>
                                  if q = 0x22 then
                                    (case JSONObject qs of
                                       Inl e \<Rightarrow> Inl e
                                     | Inr (pairs, r3) \<Rightarrow> Inr ((key, v) # pairs, r3))
                                  else Inl JSONDecodeError)
                           else Inl JSONDecodeError))))"
proof -
  have "length qs < length s"
    if "scanstring s = Inr (key, r)" "skip_ws r = c # cs"
       "scan_once (skip_ws cs) = Inr (v, r2)" "skip_ws r2 = d # ds" "skip_ws ds = q # qs"
    for key r c cs v r2 d ds q qs
    using scanstring_shorter [OF that(1)] skip_ws_Cons_le [OF that(2)] length_skip_ws [of cs]
      consumesD [OF parser_consumes(1) that(3)] skip_ws_Cons_le [OF that(4)]
      skip_ws_Cons_le [OF that(5)]
    by simp
  then show ?thesis
    by (subst JSONObject.simps) (auto split: sum.split list.split)
qed

section \<open>Decoding an encoded map\<close>

lemma skip_ws_Cons: "skip_ws (c # cs) = (if is_ws c then skip_ws cs else c # cs)"
  by (simp add: skip_ws_def)

lemma skip_ws_Nil: "skip_ws [] = []"
  by (simp add: skip_ws_def)

lemma update_fresh: "k \<notin> fst ` set d \<Longrightarrow> AList.update k v d = d @ [(k, v)]"
  by (induction d) auto

lemma foldl_update_distinct:
  "distinct (map fst (d @ pairs)) \<Longrightarrow>
   foldl (\<lambda>d (k, v). AList.update k v d) d pairs = d @ pairs"
proof (induction pairs arbitrary: d)
  case Nil
  then show ?case by simp
next
  case (Cons p pairs)
  obtain k v where p: "p = (k, v)" by (cases p)
  from Cons.prems have "k \<notin> fst ` set d" by (auto simp: p)
  then have u: "AList.update k v d = d @ [(k, v)]" by (rule update_fresh)
  from Cons.prems have "distinct (map fst ((d @ [(k, v)]) @ pairs))" by (simp add: p)
  from Cons.IH [OF this] show ?case by (simp add: p u)
qed

lemma dict_distinct: "distinct (map fst pairs) \<Longrightarrow> dict pairs = pairs"
  using foldl_update_distinct [of "[]" pairs] by (simp add: dict_def)

lemma iterencode_items_False:
  "items \<noteq> [] \<Longrightarrow> iterencode_items False items = item_separator @ iterencode_items True items"
  by (cases items) auto

lemma scan_once_string:
  assumes "faithful s"
  shows "scan_once (encode_basestring_ascii s @ rest) = Inr (PStr s, rest)"
  using assms scanstring_encoded [of s rest]
  by (simp add: encode_basestring_ascii_def scan_once.simps faithful_def)

lemma skip_ws_basestring [simp]:
  "skip_ws (encode_basestring_ascii s @ rest) = encode_basestring_ascii s @ rest"
  by (simp add: encode_basestring_ascii_def skip_ws_Cons is_ws_def)

lemma JSONObject_items:
  assumes "items \<noteq> []" "list_all (\<lambda>(key, desc). faithful key \<and> faithful desc) items"
  shows "\<exists>t. iterencode_items True items @ 0x0A # 0x7D # tail = 0x22 # t
             \<and> JSONObject t = Inr (str_dict items, tail)"
  using assms
proof (induction items rule: list_nonempty_induct)
  case (single p)
  obtain key desc where p: "p = (key, desc)" by (cases p)
  from single have k: "is_str key" "well_paired key" and d: "faithful desc"
    by (simp_all add: p faithful_def)
  let ?R = "0x0A # 0x7D # tail"
  let ?t = "concat (map replace key) @ 0x22 # key_separator @ encode_basestring_ascii desc @ ?R"
  have "iterencode_items True [p] @ ?R = 0x22 # ?t"
    by (simp add: p encode_basestring_ascii_def)
  moreover have "JSONObject ?t = Inr (str_dict [p], tail)"
    by (subst JSONObject.simps)
      (simp add: scanstring_encoded [OF k] key_separator_def str_def skip_ws_Cons is_ws_def
        scan_once_string [OF d] p str_dict_def)
  ultimately show ?case by blast
next
  case (cons p items)
  obtain key desc where p: "p = (key, desc)" by (cases p)
  from cons.prems have k: "is_str key" "well_paired key" and d: "faithful desc"
    and rest: "list_all (\<lambda>(key, desc). faithful key \<and> faithful desc) items"
    by (simp_all add: p faithful_def)
  from cons.IH [OF rest] obtain t' where
    t': "iterencode_items True items @ 0x0A # 0x7D # tail = 0x22 # t'"
    and IH: "JSONObject t' = Inr (str_dict items, tail)" by blast
  let ?R = "item_separator @ 0x22 # t'"
  let ?t = "concat (map replace key) @ 0x22 # key_separator @ encode_basestring_ascii desc @ ?R"
  have "iterencode_items True (p # items) @ 0x0A # 0x7D # tail = 0x22 # ?t"
    using t' cons.hyps by (simp add: p encode_basestring_ascii_def iterencode_items_False)
  moreover have "JSONObject ?t = Inr (str_dict (p # items), tail)"
    by (subst JSONObject.simps)
      (simp add: scanstring_encoded [OF k] key_separator_def str_def skip_ws_Cons is_ws_def
        scan_once_string [OF d] item_separator_def newline_indent_def IH p str_dict_def)
  ultimately show ?case by blast
qed

lemma loads_iterencode_dict:
  assumes "faithful_map m"
  shows "loads (iterencode_dict m) = Inr (PDict (str_dict m))"
proof (cases "m = []")
  case True
  then show ?thesis
    by (simp add: loads_def iterencode_dict_def str_def skip_ws_Cons skip_ws_Nil is_ws_def
        scan_once.simps str_dict_def)
next
  case False
  from assms have ok: "list_all (\<lambda>(key, desc). faithful key \<and> faithful desc) m"
    and dist: "distinct (map fst (str_dict m))"
    by (simp_all add: faithful_map_def str_dict_def comp_def case_prod_beta)
  from JSONObject_items [OF False ok, of "[]"] obtain t where
    t: "iterencode_items True m @ [0x0A, 0x7D] = 0x22 # t"
    and obj: "JSONObject t = Inr (str_dict m, [])" by auto
  have "iterencode_dict m = 0x7B # 0x0A # 0x20 # 0x20 # 0x22 # t"
    using False t by (simp add: iterencode_dict_def str_def newline_indent_def)
  then show ?thesis
    by (simp add: loads_def skip_ws_Cons skip_ws_Nil is_ws_def scan_once.simps obj
        dict_distinct [OF dist])
qed

section \<open>Saving and loading\<close>

lemma save_fn_keys_written:
  assumes "save_fn_keys m fs = (Inr (), fs')"
  shows "\<exists>f. config_dir fs' = Present (Some f) \<and> content f = Some (iterencode_dict m)"
  using assms
  by (auto simp: save_fn_keys_def get_config_path_def open_w_def write_text_def
      split: config_dir.splits option.splits if_splits prod.splits)

lemma load_fn_keys_text:
  assumes "config_dir fs = Present (Some f)" "readable f" "content f = Some body" "loads body = Inr obj"
  shows "load_fn_keys fs = (Inr obj, fs)"
  using assms by (simp add: load_fn_keys_def get_config_path_def json_load_def)

lemma well_paired_ascii: "list_all (\<lambda>c. c < 0xD800) s \<Longrightarrow> well_paired s"
  by (induction s rule: well_paired.induct) (simp_all add: is_high_def)

lemma faithful_ascii: "list_all (\<lambda>c. c < 0xD800) s \<Longrightarrow> faithful s"
  by (simp add: faithful_def well_paired_ascii is_str_def list_all_iff) fastforce

lemma save_fn_keys_fresh: "save_fn_keys m fresh_fs = (Inr (), fs_with (iterencode_dict m))"
  by (simp add: save_fn_keys_def get_config_path_def open_w_def write_text_def fresh_fs_def fs_with_def)

text \<open>
  C1, as amended. Let a map have pairwise distinct keys, and keys and descriptions that
  are code point sequences with no high surrogate directly before a low surrogate. If
  \<open>save_fn_keys\<close> returns and the entry can then be opened for reading,
  \<open>load_fn_keys\<close> returns that map, with the entries in the order in which they
  were saved.
\<close>

theorem save_then_load:
  assumes "faithful_map m"
    and "save_fn_keys m fs = (Inr (), fs')"
    and "can_read fs'"
  shows "load_fn_keys fs' = (Inr (PDict (str_dict m)), fs')"
proof -
  from save_fn_keys_written [OF assms(2)] obtain f where
    f: "config_dir fs' = Present (Some f)" "content f = Some (iterencode_dict m)" by blast
  from assms(3) f(1) have "readable f" by (simp add: can_read_def)
  from load_fn_keys_text [OF f(1) this f(2) loads_iterencode_dict [OF assms(1)]]
  show ?thesis .
qed

text \<open>
  The scenario of the specification: saving \<open>{"F1": "Dim", "F2": "Bright"}\<close> and
  loading returns exactly this map.
\<close>

theorem save_then_load_witness:
  "load_fn_keys (fs_with (iterencode_dict [(str ''F1'', str ''Dim''), (str ''F2'', str ''Bright'')]))
     = (Inr (PDict [(str ''F1'', PStr (str ''Dim'')), (str ''F2'', PStr (str ''Bright''))]),
        fs_with (iterencode_dict [(str ''F1'', str ''Dim''), (str ''F2'', str ''Bright'')]))"
proof -
  let ?m = "[(str ''F1'', str ''Dim''), (str ''F2'', str ''Bright'')]"
  have 1: "faithful_map ?m"
    by (simp add: faithful_map_def faithful_ascii str_def)
  have 2: "save_fn_keys ?m fresh_fs = (Inr (), fs_with (iterencode_dict ?m))"
    by (rule save_fn_keys_fresh)
  have 3: "can_read (fs_with (iterencode_dict ?m))"
    by (simp add: can_read_def fs_with_def)
  from save_then_load [OF 1 2 3] show ?thesis by (simp add: str_dict_def)
qed

text \<open>
  C1 as stated fails. The map with the one key made of the code points \<open>U+D83D\<close>
  and \<open>U+DE00\<close> is written with the escapes \<open>\ud83d\ude00\<close>, which the
  decoder joins to the single code point \<open>U+1F600\<close>: the map that is loaded has
  another key than the one that was saved.
\<close>

theorem save_then_load_counterexample:
  "save_fn_keys [([0xD83D, 0xDE00], [])] fresh_fs
     = (Inr (), fs_with (iterencode_dict [([0xD83D, 0xDE00], [])]))
   \<and> load_fn_keys (fs_with (iterencode_dict [([0xD83D, 0xDE00], [])]))
     = (Inr (PDict [([0x1F600], PStr [])]), fs_with (iterencode_dict [([0xD83D, 0xDE00], [])]))
   \<and> PDict [([0x1F600], PStr [])] \<noteq> PDict (str_dict [([0xD83D, 0xDE00], [])])"
proof -
  have enc: "iterencode_dict [([0xD83D, 0xDE00], [])]
      = str ''{'' @ [0x0A] @ str ''  '' @ [0x22, 0x5C] @ str ''ud83d'' @ [0x5C] @ str ''ude00''
        @ [0x22] @ str '': '' @ [0x22, 0x22, 0x0A] @ str ''}''"
    by (simp add: iterencode_dict_def newline_indent_def key_separator_def
        encode_basestring_ascii_def replace_def hex4_def hexdigit_def str_def)
  have "loads (iterencode_dict [([0xD83D, 0xDE00], [])]) = Inr (PDict [([0x1F600], PStr [])])"
    unfolding enc
    by (simp add: loads_def str_def skip_ws_def is_ws_def scan_once.simps JSONObject.simps
        scanstring.simps decode_uXXXX_def hex_value_def is_high_def is_low_def
        join_surrogates_def append_char_def dict_def push_bit_eq_mult)
  then have "load_fn_keys (fs_with (iterencode_dict [([0xD83D, 0xDE00], [])]))
     = (Inr (PDict [([0x1F600], PStr [])]), fs_with (iterencode_dict [([0xD83D, 0xDE00], [])]))"
    by (intro load_fn_keys_text [where f = "\<lparr>readable = True, writable = True,
          content = Some (iterencode_dict [([0xD83D, 0xDE00], [])])\<rparr>"])
       (simp_all add: fs_with_def)
  then show ?thesis by (simp add: save_fn_keys_fresh str_dict_def)
qed

section \<open>Loading\<close>

text \<open>
  C2, as amended. When no config file exists at the configuration path and the
  configuration directory is there or can be made, \<open>load_fn_keys\<close> returns
  exactly the hardcoded default map: twelve entries, one per function key from F1 to
  F12 in this order.
\<close>

theorem load_fn_keys_no_file:
  assumes "no_config_file fs" "config_dir fs \<noteq> Blocked"
  shows "fst (load_fn_keys fs) = Inr (PDict (str_dict default_keys))
         \<and> length default_keys = 12
         \<and> map fst default_keys =
             map str [''F1'', ''F2'', ''F3'', ''F4'', ''F5'', ''F6'',
                      ''F7'', ''F8'', ''F9'', ''F10'', ''F11'', ''F12'']"
proof -
  have "fst (load_fn_keys fs) = Inr (PDict (str_dict default_keys))"
    using assms
    by (auto simp: load_fn_keys_def get_config_path_def no_config_file_def
        split: config_dir.splits option.splits)
  moreover have "length default_keys = 12"
    by (simp add: default_keys_def)
  moreover have "map fst default_keys =
      map str [''F1'', ''F2'', ''F3'', ''F4'', ''F5'', ''F6'',
               ''F7'', ''F8'', ''F9'', ''F10'', ''F11'', ''F12'']"
    by (simp add: default_keys_def)
  ultimately show ?thesis by blast
qed

theorem load_fn_keys_no_file_witness:
  "fst (load_fn_keys \<lparr>config_dir = Present None, may_create = True, capacity = None\<rparr>)
     = Inr (PDict (str_dict default_keys))"
  using load_fn_keys_no_file [of "\<lparr>config_dir = Present None, may_create = True, capacity = None\<rparr>"]
  by (simp add: no_config_file_def)

text \<open>
  C2 as stated fails: when the configuration directory cannot be made there is no
  config file either, and \<open>os.makedirs\<close> in \<open>get_config_path\<close> raises
  before \<open>load_fn_keys\<close> looks for the file, so no map is returned.
\<close>

theorem load_fn_keys_no_file_counterexample:
  "no_config_file \<lparr>config_dir = Blocked, may_create = False, capacity = None\<rparr>
   \<and> fst (load_fn_keys \<lparr>config_dir = Blocked, may_create = False, capacity = None\<rparr>)
       = Inl OSError
   \<and> fst (load_fn_keys \<lparr>config_dir = Blocked, may_create = False, capacity = None\<rparr>)
       \<noteq> Inr (PDict (str_dict default_keys))"
  by (simp add: no_config_file_def load_fn_keys_def get_config_path_def)

text \<open>
  A file on which \<open>open\<close>, \<open>read\<close> or the decoder raises gives the default
  map; the cut-off text is an example.
\<close>

lemma load_fn_keys_unparsable:
  assumes "config_dir fs = Present (Some f)" "json_load f = Inl e"
  shows "load_fn_keys fs = (Inr (PDict (str_dict default_keys)), fs)"
  using assms by (simp add: load_fn_keys_def get_config_path_def)

lemma loads_truncated: "loads truncated = Inl JSONDecodeError"
  by (simp add: truncated_def loads_def str_def skip_ws_def is_ws_def scan_once.simps
      JSONObject.simps scanstring.simps append_char_def)

lemma load_fn_keys_truncated:
  "load_fn_keys (fs_with truncated) = (Inr (PDict (str_dict default_keys)), fs_with truncated)"
  by (rule load_fn_keys_unparsable [where e = JSONDecodeError
        and f = "\<lparr>readable = True, writable = True, content = Some truncated\<rparr>"])
    (simp_all add: fs_with_def json_load_def loads_truncated)

text \<open>
  C3, the code at a file that holds \<open>[]\<close>. The text is valid JSON, so nothing is
  raised and the handler is not reached: \<open>load_fn_keys\<close> returns the empty list
  and not the default map, and the constructor of the window then fails on
  \<open>self.fn_keys.items()\<close>.
\<close>

theorem load_fn_keys_non_object:
  "load_fn_keys (fs_with (str ''[]'')) = (Inr (PList []), fs_with (str ''[]''))
   \<and> PList [] \<noteq> PDict (str_dict default_keys)
   \<and> FnKeyWindow_init py (fs_with (str ''[]''), h) = (Inl AttributeError, fs_with (str ''[]''), h)"
proof -
  have "loads (str ''[]'') = Inr (PList [])"
    by (simp add: loads_def str_def skip_ws_def is_ws_def scan_once.simps)
  then have "load_fn_keys (fs_with (str ''[]'')) = (Inr (PList []), fs_with (str ''[]''))"
    by (intro load_fn_keys_text [where f = "\<lparr>readable = True, writable = True,
          content = Some (str ''[]'')\<rparr>"]) (simp_all add: fs_with_def)
  then show ?thesis by (simp add: FnKeyWindow_init_def)
qed

text \<open>
  C10, as amended. Whenever \<open>get_config_path\<close> returns, that is whenever the
  configuration directory exists or can be made, \<open>load_fn_keys\<close> returns a value
  and raises nothing, whatever the entry is: missing, not readable, not decodable, or
  any text. The value is the default map, or what the decoder made of the text.
\<close>

theorem load_fn_keys_returns:
  assumes "config_dir fs \<noteq> Blocked"
  shows "\<exists>obj fs'. load_fn_keys fs = (Inr obj, fs')
           \<and> (obj = PDict (str_dict default_keys)
                \<or> (\<exists>f body. config_dir fs = Present (Some f) \<and> readable f
                      \<and> content f = Some body \<and> loads body = Inr obj))"
  using assms
  by (auto simp: load_fn_keys_def get_config_path_def json_load_def
      split: config_dir.split option.split sum.split if_splits)

theorem load_fn_keys_returns_witness:
  "\<exists>fs'. load_fn_keys locked_fs = (Inr (PDict (str_dict default_keys)), fs')"
  using load_fn_keys_returns [of locked_fs] by (auto simp: locked_fs_def)

text \<open>
  C10 as stated fails: \<open>os.makedirs\<close> in \<open>get_config_path\<close> is outside the
  \<open>try\<close>, and \<open>load_fn_keys\<close> raises when the directory cannot be made.
\<close>

theorem load_fn_keys_raises_counterexample:
  "load_fn_keys blocked_fs = (Inl OSError, blocked_fs)"
  by (simp add: load_fn_keys_def get_config_path_def blocked_fs_def)

section \<open>The edit dialog\<close>

text \<open>What a field gives back for the \<open>str\<close> it was made with.\<close>

lemma FromQString_Cons:
  "\<not> (is_high c \<and> (\<exists>v vs. us = v # vs \<and> is_low v)) \<Longrightarrow> FromQString (c # us) = c # FromQString us"
  by (cases us) auto

lemma AsQString_low:
  assumes "AsQString (d # cs) = v # vs" "is_low v" "d < 0x110000"
  shows "v = d"
proof (cases "d < 0x10000")
  case True
  then show ?thesis using assms(1) by simp
next
  case False
  then have "v = d div 0x400 + 0xD7C0" using assms(1) by simp
  moreover have "d div 0x400 < 0x440" using assms(3) by simp
  ultimately show ?thesis using assms(2) by (simp add: is_low_def)
qed

lemma FromQString_pair:
  assumes "0x10000 \<le> c" "c < 0x110000"
  shows "FromQString ((c div 0x400 + 0xD7C0) # (c mod 0x400 + 0xDC00) # us) = c # FromQString us"
proof -
  have "0x40 \<le> c div 0x400" using assms(1) by simp
  moreover have "c div 0x400 < 0x440" using assms(2) by simp
  ultimately have "is_high (c div 0x400 + 0xD7C0)" by (simp add: is_high_def)
  moreover have "is_low (c mod 0x400 + 0xDC00)"
  proof -
    have "c mod 0x400 < 0x400" by simp
    then show ?thesis unfolding is_low_def by linarith
  qed
  moreover have "(c div 0x400 + 0xD7C0) * 0x400 + (c mod 0x400 + 0xDC00) - 0x35FDC00 = c"
  proof -
    have "(c div 0x400 + 0xD7C0) * 0x400 + (c mod 0x400 + 0xDC00)
        = (c div 0x400 * 0x400 + c mod 0x400) + 0x35FDC00"
      by (simp add: add_mult_distrib)
    then show ?thesis by simp
  qed
  ultimately show ?thesis by simp
qed

lemma FromQString_AsQString:
  assumes "is_str s" "well_paired s"
  shows "FromQString (AsQString s) = s"
  using assms
proof (induction s)
  case Nil
  then show ?case by simp
next
  case (Cons c cs)
  have c: "c < 0x110000" and cs: "is_str cs"
    using Cons.prems(1) by (simp_all add: is_str_def)
  have "well_paired cs" using Cons.prems(2) by (cases cs) simp_all
  with cs Cons.IH have IH: "FromQString (AsQString cs) = cs" by simp
  show ?case
  proof (cases "c < 0x10000")
    case False
    then have "AsQString (c # cs) = (c div 0x400 + 0xD7C0) # (c mod 0x400 + 0xDC00) # AsQString cs"
      by simp
    with False c IH show ?thesis by (simp only: FromQString_pair not_less)
  next
    case True
    have "\<not> (is_high c \<and> (\<exists>v vs. AsQString cs = v # vs \<and> is_low v))"
    proof
      assume h: "is_high c \<and> (\<exists>v vs. AsQString cs = v # vs \<and> is_low v)"
      then obtain v vs where v: "AsQString cs = v # vs" "is_low v" by blast
      then obtain d ds where d: "cs = d # ds" by (cases cs) simp_all
      with cs have "d < 0x110000" by (simp add: is_str_def)
      with v d have "v = d" using AsQString_low by blast
      with h v(2) d Cons.prems(2) show False by simp
    qed
    then have "FromQString (c # AsQString cs) = c # FromQString (AsQString cs)"
      by (rule FromQString_Cons)
    with True IH show ?thesis by simp
  qed
qed

lemma plain_kept: "plain s \<Longrightarrow> FromQString (AsQString s) = s"
  by (simp add: plain_def faithful_def FromQString_AsQString)

lemma AsQString_ascii: "list_all (\<lambda>c. c < 0xD800) s \<Longrightarrow> AsQString s = s"
  by (induction s) simp_all

lemma plain_ascii: "list_all (\<lambda>c. c < 0xD800) s \<Longrightarrow> plain s"
proof -
  assume a: "list_all (\<lambda>c. c < 0xD800) s"
  then have "\<not> list_ex (\<lambda>c. 0x10000 \<le> c) s"
    by (induction s) simp_all
  with a show ?thesis by (simp add: plain_def faithful_ascii)
qed

lemma FromQString_ascii: "list_all (\<lambda>c. c < 0xD800) s \<Longrightarrow> FromQString s = s"
  using plain_kept [OF plain_ascii, of s] by (simp add: AsQString_ascii)

text \<open>The dialog for a map of strings.\<close>

lemma make_edits_str_dict: "make_edits (str_dict m) = Inr (fields m)"
  by (induction m) (auto simp: str_dict_def fields_def QLineEdit_def)

lemma SettingsDialog_init_str_dict:
  assumes "deref h a = Some (str_dict m)"
  shows "SettingsDialog_init h a
     = (Inr \<lparr>dlg_fn_keys = length h, edits = fields m\<rparr>, h @ [str_dict m])"
  using assms by (simp add: SettingsDialog_init_def new_dict_def make_edits_str_dict)

lemma SettingsDialog_init_heap:
  assumes "SettingsDialog_init h a = (r, h1)"
  shows "h1 = h \<or> (\<exists>d. deref h a = Some d \<and> h1 = h @ [d])"
  using assms
  by (auto simp: SettingsDialog_init_def new_dict_def split: option.splits sum.splits)

lemma map_fst_fields: "map fst (fields m) = map fst m"
  by (simp add: fields_def comp_def case_prod_beta)

lemma map_of_fields: "map_of (fields m) key = map_option AsQString (map_of m key)"
  by (induction m) (auto simp: fields_def)

lemma fields_default_keys: "fields default_keys = default_keys"
proof -
  have "list_all (\<lambda>(key, desc). list_all (\<lambda>c. c < 0xD800) desc) default_keys"
    by (simp add: default_keys_def str_def)
  then have "map (\<lambda>(key, desc). (key, AsQString desc)) default_keys = map (\<lambda>x. x) default_keys"
    by (intro map_cong) (auto simp: list_all_iff AsQString_ascii)
  then show ?thesis by (simp add: fields_def)
qed

lemma map_fst_setText: "map fst (setText field t es) = map fst es"
  by (induction es) (auto simp: setText_def)

lemma map_of_setText_other: "key \<noteq> field \<Longrightarrow> map_of (setText field t es) key = map_of es key"
  by (induction es) (auto simp: setText_def)

lemma map_fst_typed:
  "map fst (foldl (\<lambda>es (field, t). setText field t es) es ts) = map fst es"
  by (induction ts arbitrary: es) (auto simp: map_fst_setText)

lemma map_of_typed_other:
  "key \<notin> fst ` set ts \<Longrightarrow>
   map_of (foldl (\<lambda>es (field, t). setText field t es) es ts) key = map_of es key"
  by (induction ts arbitrary: es) (auto simp: map_of_setText_other)

lemma map_fst_get_updated_keys: "map fst (get_updated_keys dlg) = map fst (edits dlg)"
  by (simp add: get_updated_keys_def comp_def case_prod_beta)

lemma map_of_get_updated_keys:
  "map_of (get_updated_keys dlg) key = map_option FromQString (map_of (edits dlg) key)"
proof -
  have "map_of (map (\<lambda>(key, edit). (key, FromQString edit)) es) key
      = map_option FromQString (map_of es key)" for es
    by (induction es) auto
  then show ?thesis by (simp add: get_updated_keys_def)
qed

lemma get_updated_keys_typed_one:
  assumes "\<forall>(key, desc)\<in>set m. key \<noteq> field \<longrightarrow> plain desc"
  shows "map (\<lambda>(key, edit). (key, FromQString edit)) (setText field t (fields m))
     = map (\<lambda>(key, desc). if key = field then (key, FromQString (take maxLength t)) else (key, desc)) m"
  using assms by (induction m) (auto simp: setText_def fields_def plain_kept)

text \<open>
  C5, as amended. For every input map of strings the dialog is built, and on
  confirmation \<open>get_updated_keys\<close> returns a map with the keys of the input in the
  same order. A field that was not typed into keeps its description when the
  description has no high surrogate directly before a low one (and no U+FEFF together
  with a code point from \<open>0x10000\<close> on). After typing into one field, with such
  descriptions at the other keys, the map differs from the input at that key only,
  where it has the first 32767 code units of the text that was typed.
\<close>

theorem dialog_confirm:
  assumes "deref h a = Some (str_dict m)"
  shows "\<exists>dlg h1. SettingsDialog_init h a = (Inr dlg, h1)
     \<and> map fst (get_updated_keys (snd (exec user dlg))) = map fst m
     \<and> (\<forall>key desc. key \<notin> fst ` set (typed user) \<longrightarrow> map_of m key = Some desc \<longrightarrow> plain desc \<longrightarrow>
           map_of (get_updated_keys (snd (exec user dlg))) key = Some desc)
     \<and> (\<forall>field t. typed user = [(field, t)] \<longrightarrow>
           (\<forall>(key, desc)\<in>set m. key \<noteq> field \<longrightarrow> plain desc) \<longrightarrow>
           get_updated_keys (snd (exec user dlg))
             = map (\<lambda>(key, desc). if key = field then (key, FromQString (take maxLength t))
                                   else (key, desc)) m)"
proof -
  let ?dlg = "\<lparr>dlg_fn_keys = length h, edits = fields m\<rparr>"
  let ?updated = "get_updated_keys (snd (exec user ?dlg))"
  have "map fst ?updated = map fst m"
    by (simp add: map_fst_get_updated_keys exec_def map_fst_typed map_fst_fields)
  moreover have "map_of ?updated key = Some desc"
    if "key \<notin> fst ` set (typed user)" "map_of m key = Some desc" "plain desc" for key desc
    using that
    by (simp add: map_of_get_updated_keys exec_def map_of_typed_other map_of_fields plain_kept)
  moreover have "?updated = map (\<lambda>(key, desc). if key = field then (key, FromQString (take maxLength t))
                                   else (key, desc)) m"
    if "typed user = [(field, t)]" "\<forall>(key, desc)\<in>set m. key \<noteq> field \<longrightarrow> plain desc" for field t
    using that by (simp add: get_updated_keys_def exec_def get_updated_keys_typed_one)
  ultimately show ?thesis
    using SettingsDialog_init_str_dict [OF assms] by blast
qed

theorem dialog_confirm_witness:
  "\<exists>dlg h1. SettingsDialog_init [str_dict default_keys] 0 = (Inr dlg, h1)
     \<and> get_updated_keys (snd (exec \<lparr>typed = [(str ''F3'', str ''Mission Control'')], answer = Accepted\<rparr> dlg))
         = map (\<lambda>(key, desc). if key = str ''F3'' then (key, str ''Mission Control'') else (key, desc))
             default_keys"
proof -
  have p: "\<forall>(key, desc)\<in>set default_keys. key \<noteq> str ''F3'' \<longrightarrow> plain desc"
  proof -
    have "list_all (\<lambda>(key, desc). list_all (\<lambda>c. c < 0xD800) desc) default_keys"
      by (simp add: default_keys_def str_def)
    then show ?thesis by (auto simp: list_all_iff plain_ascii)
  qed
  have "take maxLength (str ''Mission Control'') = str ''Mission Control''"
    by (rule take_all) (simp add: maxLength_def str_def)
  moreover have "FromQString (str ''Mission Control'') = str ''Mission Control''"
    by (rule FromQString_ascii) (simp add: str_def)
  ultimately have t: "FromQString (take maxLength (str ''Mission Control'')) = str ''Mission Control''"
    by simp
  have d: "deref [str_dict default_keys] 0 = Some (str_dict default_keys)"
    by (simp add: deref_def)
  from dialog_confirm [OF d, of "\<lparr>typed = [(str ''F3'', str ''Mission Control'')], answer = Accepted\<rparr>"]
  obtain dlg h1 where i: "SettingsDialog_init [str_dict default_keys] 0 = (Inr dlg, h1)"
    and e: "\<forall>field t. typed \<lparr>typed = [(str ''F3'', str ''Mission Control'')], answer = Accepted\<rparr> = [(field, t)] \<longrightarrow>
           (\<forall>(key, desc)\<in>set default_keys. key \<noteq> field \<longrightarrow> plain desc) \<longrightarrow>
           get_updated_keys (snd (exec \<lparr>typed = [(str ''F3'', str ''Mission Control'')], answer = Accepted\<rparr> dlg))
             = map (\<lambda>(key, desc). if key = field then (key, FromQString (take maxLength t))
                                   else (key, desc)) default_keys"
    by blast
  from e [rule_format, of "str ''F3''" "str ''Mission Control''"] p
  have "get_updated_keys (snd (exec \<lparr>typed = [(str ''F3'', str ''Mission Control'')], answer = Accepted\<rparr> dlg))
      = map (\<lambda>(key, desc). if key = str ''F3'' then (key, FromQString (take maxLength (str ''Mission Control'')))
                                   else (key, desc)) default_keys"
    by simp
  with i show ?thesis unfolding t by blast
qed

text \<open>
  C5 as stated fails: a field that is made with the two code points U+D83D U+DE00, a
  high surrogate and a low one, and that nobody types into, gives back the one code
  point U+1F600.
\<close>

theorem dialog_confirm_counterexample:
  "is_str [0xD83D, 0xDE00]
   \<and> SettingsDialog_init [str_dict [(str ''F1'', [0xD83D, 0xDE00])]] 0
       = (Inr \<lparr>dlg_fn_keys = 1, edits = [(str ''F1'', [0xD83D, 0xDE00])]\<rparr>,
          [str_dict [(str ''F1'', [0xD83D, 0xDE00])], str_dict [(str ''F1'', [0xD83D, 0xDE00])]])
   \<and> get_updated_keys (snd (exec \<lparr>typed = [], answer = Accepted\<rparr>
          \<lparr>dlg_fn_keys = 1, edits = [(str ''F1'', [0xD83D, 0xDE00])]\<rparr>))
       = [(str ''F1'', [0x1F600])]
   \<and> [(str ''F1'', [0x1F600])] \<noteq> [(str ''F1'', [0xD83D, 0xDE00])]"
  by (simp add: is_str_def SettingsDialog_init_def deref_def new_dict_def str_dict_def
      QLineEdit_def get_updated_keys_def exec_def is_high_def is_low_def)

section \<open>Saving\<close>

lemma save_fn_keys_fst:
  "fst (save_fn_keys m fs) = (if can_write m fs then Inr () else Inl OSError)"
  by (auto simp: save_fn_keys_def get_config_path_def open_w_def write_text_def can_write_def
      split: config_dir.split option.split)

lemma save_fn_keys_content:
  "can_write m fs \<Longrightarrow>
   \<exists>f. config_dir (snd (save_fn_keys m fs)) = Present (Some f) \<and> content f = Some (iterencode_dict m)"
  by (auto simp: save_fn_keys_def get_config_path_def open_w_def write_text_def can_write_def
      split: config_dir.split option.split)

lemma show_settings_save_fails:
  assumes "SettingsDialog_init h (fn_keys w) = (Inr dlg, h1)" "answer user = Accepted"
    and "\<not> can_write (get_updated_keys (snd (exec user dlg))) fs"
  shows "fst (show_settings py user (w, fs, h)) = Inl OSError"
proof -
  obtain dlg' where e: "exec user dlg = (Accepted, dlg')"
    using assms(2) by (simp add: exec_def)
  obtain r fs' where s: "save_fn_keys (get_updated_keys dlg') fs = (r, fs')"
    by (cases "save_fn_keys (get_updated_keys dlg') fs")
  with assms(3) e save_fn_keys_fst [of "get_updated_keys dlg'" fs] have "r = Inl OSError" by simp
  then show ?thesis
    by (simp add: show_settings_def assms(1) e s Let_def new_dict_def)
qed

text \<open>
  C8. \<open>save_fn_keys\<close> catches nothing. It returns exactly when it can write, and
  the entry then holds the serialization of the given map and nothing of what it held
  before; in every other case the error leaves \<open>save_fn_keys\<close>, and it leaves
  \<open>show_settings\<close> too when the save of an accepted dialog fails.
\<close>

theorem save_fn_keys_propagates:
  "fst (save_fn_keys m fs) = (if can_write m fs then Inr () else Inl OSError)
   \<and> (can_write m fs \<longrightarrow>
        (\<exists>f. config_dir (snd (save_fn_keys m fs)) = Present (Some f)
             \<and> content f = Some (iterencode_dict m)))
   \<and> (SettingsDialog_init h (fn_keys w) = (Inr dlg, h1) \<longrightarrow> answer user = Accepted \<longrightarrow>
        \<not> can_write (get_updated_keys (snd (exec user dlg))) fs \<longrightarrow>
        fst (show_settings py user (w, fs, h)) = Inl OSError)"
  using save_fn_keys_fst [of m fs] save_fn_keys_content [of m fs]
    show_settings_save_fails [of h w dlg h1 user fs py]
  by blast

theorem save_fn_keys_propagates_witness:
  "fst (save_fn_keys default_keys fresh_fs) = Inr ()
   \<and> (\<exists>f. config_dir (snd (save_fn_keys default_keys fresh_fs)) = Present (Some f)
            \<and> content f = Some (iterencode_dict default_keys))
   \<and> fst (save_fn_keys default_keys blocked_fs) = Inl OSError
   \<and> fst (show_settings any_python \<lparr>typed = [], answer = Accepted\<rparr>
              (\<lparr>fn_keys = 0, key_labels = rows default_keys\<rparr>, blocked_fs, [str_dict default_keys]))
       = Inl OSError"
proof -
  have ok: "can_write default_keys fresh_fs"
    by (simp add: can_write_def fresh_fs_def)
  have no: "\<not> can_write m blocked_fs" for m
    by (simp add: can_write_def blocked_fs_def)
  have init: "SettingsDialog_init [str_dict default_keys]
        (fn_keys \<lparr>fn_keys = 0, key_labels = rows default_keys\<rparr>)
      = (Inr \<lparr>dlg_fn_keys = 1, edits = default_keys\<rparr>, [str_dict default_keys, str_dict default_keys])"
    using SettingsDialog_init_str_dict [of "[str_dict default_keys]" 0 default_keys]
    by (simp add: deref_def fields_default_keys)
  from save_fn_keys_propagates [of default_keys fresh_fs "[str_dict default_keys]"
      "\<lparr>fn_keys = 0, key_labels = rows default_keys\<rparr>"
      "\<lparr>dlg_fn_keys = 1, edits = default_keys\<rparr>" "[str_dict default_keys, str_dict default_keys]"
      "\<lparr>typed = [], answer = Accepted\<rparr>" any_python]
    save_fn_keys_propagates [of default_keys blocked_fs "[str_dict default_keys]"
      "\<lparr>fn_keys = 0, key_labels = rows default_keys\<rparr>"
      "\<lparr>dlg_fn_keys = 1, edits = default_keys\<rparr>" "[str_dict default_keys, str_dict default_keys]"
      "\<lparr>typed = [], answer = Accepted\<rparr>" any_python]
  show ?thesis using ok no init by simp
qed

section \<open>Cancelling\<close>

lemma show_settings_Rejected:
  assumes "answer user = Rejected"
  shows "\<exists>r h'. show_settings py user (w, fs, h) = (r, w, fs, h')
           \<and> deref h' (fn_keys w) = deref h (fn_keys w)"
proof (cases "SettingsDialog_init h (fn_keys w)")
  case (Pair r h1)
  from SettingsDialog_init_heap [OF Pair]
  have "deref h1 (fn_keys w) = deref h (fn_keys w)"
    by (auto simp: deref_def nth_append split: if_splits)
  then show ?thesis using assms
    by (cases r) (simp_all add: show_settings_def Pair exec_def)
qed

text \<open>
  C4. When the dialog is cancelled, \<open>show_settings\<close> leaves the window, the
  \<open>dict\<close> that the window holds and the file system as they were: nothing is
  saved, and \<open>load_fn_keys\<close> returns afterwards what it returned before.
\<close>

theorem show_settings_cancel:
  assumes "answer user = Rejected" "show_settings py user (w, fs, h) = (r, w', fs', h')"
  shows "w' = w \<and> fs' = fs \<and> deref h' (fn_keys w') = deref h (fn_keys w)
         \<and> load_fn_keys fs' = load_fn_keys fs"
  using show_settings_Rejected [OF assms(1), of py w fs h] assms(2) by auto

theorem show_settings_cancel_witness:
  "fst (snd (show_settings any_python \<lparr>typed = [(str ''F1'', str ''Sleep'')], answer = Rejected\<rparr>
         (\<lparr>fn_keys = 0, key_labels = rows default_keys\<rparr>, fresh_fs, [str_dict default_keys])))
     = \<lparr>fn_keys = 0, key_labels = rows default_keys\<rparr>
   \<and> fst (snd (snd (show_settings any_python \<lparr>typed = [(str ''F1'', str ''Sleep'')], answer = Rejected\<rparr>
         (\<lparr>fn_keys = 0, key_labels = rows default_keys\<rparr>, fresh_fs, [str_dict default_keys]))))
     = fresh_fs"
proof -
  let ?S = "show_settings any_python \<lparr>typed = [(str ''F1'', str ''Sleep'')], answer = Rejected\<rparr>
         (\<lparr>fn_keys = 0, key_labels = rows default_keys\<rparr>, fresh_fs, [str_dict default_keys])"
  have "?S = (fst ?S, fst (snd ?S), fst (snd (snd ?S)), snd (snd (snd ?S)))" by simp
  from show_settings_cancel [OF _ this] show ?thesis by simp
qed

section \<open>The display\<close>

lemma label_text_PStr: "label_text py key (PStr desc) = row key desc"
  by (simp add: label_text_def truth_def format_def row_def str_def)

lemma labels_str_dict:
  "map (\<lambda>(key, desc). (key, label_text py key desc)) (str_dict m) = rows m"
  by (induction m) (auto simp: str_dict_def rows_def label_text_PStr)

lemma map_fst_rows: "map fst (rows m) = map fst m"
  by (simp add: rows_def comp_def case_prod_beta)

lemma FnKeyWindow_init_str_dict:
  assumes "load_fn_keys fs = (Inr (PDict (str_dict m)), fs')"
  shows "FnKeyWindow_init py (fs, h)
     = (Inr \<lparr>fn_keys = length h, key_labels = rows m\<rparr>, fs', h @ [str_dict m])"
  by (simp add: FnKeyWindow_init_def assms new_dict_def labels_str_dict)

lemma get_str_dict:
  assumes "distinct (map fst m)" "(key, desc) \<in> set m"
  shows "get (str_dict m) key dflt = PStr desc"
proof -
  have "distinct (map fst (str_dict m))"
    using assms(1) by (simp add: str_dict_def comp_def case_prod_beta)
  moreover have "(key, PStr desc) \<in> set (str_dict m)"
    using assms(2) by (force simp: str_dict_def)
  ultimately have "map_of (str_dict m) key = Some (PStr desc)" by simp
  then show ?thesis by (simp add: get_def)
qed

lemma relabel_rows:
  assumes "distinct (map fst m')" "map fst labels = map fst m'"
  shows "map (\<lambda>(key, label). (key, label_text py key (get (str_dict m') key (PStr [])))) labels
         = rows m'"
proof -
  have "map (\<lambda>(key, label). (key, label_text py key (get (str_dict m') key (PStr [])))) labels
      = map (\<lambda>key. (key, label_text py key (get (str_dict m') key (PStr [])))) (map fst labels)"
    by (simp add: comp_def case_prod_beta)
  also have "\<dots> = map (\<lambda>(key, desc). (key, label_text py key (get (str_dict m') key (PStr [])))) m'"
    by (simp add: assms(2) comp_def case_prod_beta)
  also have "\<dots> = rows m'"
    unfolding rows_def
    by (rule map_cong) (auto simp: get_str_dict [OF assms(1)] label_text_PStr)
  finally show ?thesis .
qed

lemma show_settings_Accepted:
  assumes "deref h (fn_keys w) = Some (str_dict m)"
    and "exec user \<lparr>dlg_fn_keys = length h, edits = fields m\<rparr> = (Accepted, dlg')"
    and "save_fn_keys (get_updated_keys dlg') fs = (Inr (), fs')"
  shows "show_settings py user (w, fs, h)
     = (Inr (),
        w\<lparr>fn_keys := Suc (length h),
          key_labels :=
            map (\<lambda>(key, label). (key, label_text py key
                   (get (str_dict (get_updated_keys dlg')) key (PStr []))))
              (key_labels w)\<rparr>,
        fs',
        h @ [str_dict m, str_dict (get_updated_keys dlg')])"
  unfolding show_settings_def
  by (simp add: SettingsDialog_init_str_dict [OF assms(1)] assms(2,3) Let_def new_dict_def
      update_key_labels_def deref_def nth_append)

lemma show_settings_Accepted_fails:
  assumes "deref h (fn_keys w) = Some (str_dict m)"
    and "exec user \<lparr>dlg_fn_keys = length h, edits = fields m\<rparr> = (Accepted, dlg')"
    and "save_fn_keys (get_updated_keys dlg') fs = (Inl e, fs')"
  shows "fst (show_settings py user (w, fs, h)) = Inl e"
  unfolding show_settings_def
  by (simp add: SettingsDialog_init_str_dict [OF assms(1)] assms(2,3) Let_def new_dict_def)

lemma FnKeyWindow_init_rows:
  assumes "load_fn_keys fs = (Inr (PDict (str_dict m)), fs')"
  shows "\<exists>w h'. FnKeyWindow_init py (fs, h) = (Inr w, fs', h')
          \<and> deref h' (fn_keys w) = Some (str_dict m) \<and> key_labels w = rows m"
  using FnKeyWindow_init_str_dict [OF assms, of py h] by (simp add: deref_def)

lemma show_settings_relabels:
  assumes d: "deref h (fn_keys w) = Some (str_dict m)"
    and dist: "distinct (map fst m)"
    and labels: "key_labels w = rows m"
    and acc: "answer user = Accepted"
    and run: "show_settings py user (w, fs, h) = (Inr (), w', fs', h')"
  shows "\<exists>m'. deref h' (fn_keys w') = Some (str_dict m') \<and> map fst m' = map fst m
          \<and> key_labels w' = rows m'"
proof -
  obtain dlg' where e: "exec user \<lparr>dlg_fn_keys = length h, edits = fields m\<rparr> = (Accepted, dlg')"
    using acc by (simp add: exec_def)
  let ?m' = "get_updated_keys dlg'"
  have keys: "map fst ?m' = map fst m"
    using e by (auto simp: map_fst_get_updated_keys exec_def map_fst_typed map_fst_fields)
  obtain r fs1 where s: "save_fn_keys ?m' fs = (r, fs1)" by (cases "save_fn_keys ?m' fs")
  have "r = Inr ()"
  proof (cases r)
    case (Inl err)
    from show_settings_Accepted_fails [OF d e s [unfolded Inl], of py] run show ?thesis by simp
  next
    case (Inr u)
    then show ?thesis by simp
  qed
  with s have "save_fn_keys ?m' fs = (Inr (), fs1)" by simp
  from show_settings_Accepted [OF d e this, of py] run
  have w': "w' = w\<lparr>fn_keys := Suc (length h),
          key_labels := map (\<lambda>(key, label). (key, label_text py key (get (str_dict ?m') key (PStr []))))
              (key_labels w)\<rparr>"
    and h': "h' = h @ [str_dict m, str_dict ?m']"
    by simp_all
  have "distinct (map fst ?m')" using dist keys by simp
  moreover have "map fst (key_labels w) = map fst ?m'"
    using labels keys by (simp add: map_fst_rows)
  ultimately have "key_labels w' = rows ?m'"
    by (simp add: w' relabel_rows)
  moreover have "deref h' (fn_keys w') = Some (str_dict ?m')"
    by (simp add: w' h' deref_def nth_append)
  ultimately show ?thesis using keys by blast
qed

lemma row_empty: "row (str ''F3'') [] = str ''<b>F3:</b> (No function)''"
  by (simp add: row_def str_def)

lemma load_fn_keys_fresh: "load_fn_keys fresh_fs = (Inr (PDict (str_dict default_keys)), fresh_fs)"
  by (simp add: load_fn_keys_def get_config_path_def fresh_fs_def)

lemma distinct_default_keys: "distinct (map fst default_keys)"
  by (simp add: default_keys_def str_def)

text \<open>
  C6. For a map of strings, each key has a row with the text \<open><b>key:</b> description\<close>,
  and with \<open>(No function)\<close> in place of an empty description. This holds when the
  window is built from the map that was loaded, and again after an accepted edit that
  was saved, for the map that the dialog returned: its keys are those of the map
  before, and every row shows its description.
\<close>

theorem labels_show_map:
  "(load_fn_keys fs = (Inr (PDict (str_dict m)), fs') \<longrightarrow>
      (\<exists>w h'. FnKeyWindow_init py (fs, h) = (Inr w, fs', h')
          \<and> deref h' (fn_keys w) = Some (str_dict m) \<and> key_labels w = rows m))
   \<and> (deref h1 (fn_keys w1) = Some (str_dict m1) \<and> distinct (map fst m1) \<and> key_labels w1 = rows m1
        \<and> answer user = Accepted \<and> show_settings py user (w1, fs1, h1) = (Inr (), w2, fs2, h2) \<longrightarrow>
      (\<exists>m2. deref h2 (fn_keys w2) = Some (str_dict m2) \<and> map fst m2 = map fst m1
          \<and> key_labels w2 = rows m2))"
  using FnKeyWindow_init_rows [of fs m fs' py h]
    show_settings_relabels [of h1 w1 m1 user py fs1 w2 fs2 h2]
  by blast

theorem labels_show_map_witness:
  "(\<exists>w h'. FnKeyWindow_init any_python (fresh_fs, []) = (Inr w, fresh_fs, h')
        \<and> deref h' (fn_keys w) = Some (str_dict default_keys) \<and> key_labels w = rows default_keys)
   \<and> (\<exists>m'. map fst m' = map fst default_keys
        \<and> key_labels (fst (snd (show_settings any_python \<lparr>typed = [(str ''F3'', [])], answer = Accepted\<rparr>
              (\<lparr>fn_keys = 0, key_labels = rows default_keys\<rparr>, fresh_fs, [str_dict default_keys]))))
            = rows m')"
proof -
  let ?u = "\<lparr>typed = [(str ''F3'', [])], answer = Accepted\<rparr>"
  let ?w = "\<lparr>fn_keys = 0, key_labels = rows default_keys\<rparr>"
  let ?h = "[str_dict default_keys]"
  let ?S = "show_settings any_python ?u (?w, fresh_fs, ?h)"
  have d: "deref ?h (fn_keys ?w) = Some (str_dict default_keys)"
    by (simp add: deref_def)
  have e: "exec ?u \<lparr>dlg_fn_keys = length ?h, edits = fields default_keys\<rparr>
      = (Accepted, \<lparr>dlg_fn_keys = length ?h, edits = setText (str ''F3'') [] default_keys\<rparr>)"
    by (simp add: exec_def fields_default_keys)
  have s: "save_fn_keys (get_updated_keys \<lparr>dlg_fn_keys = length ?h,
        edits = setText (str ''F3'') [] default_keys\<rparr>) fresh_fs
      = (Inr (), fs_with (iterencode_dict (get_updated_keys \<lparr>dlg_fn_keys = length ?h,
        edits = setText (str ''F3'') [] default_keys\<rparr>)))"
    by (rule save_fn_keys_fresh)
  have r: "fst ?S = Inr ()"
    by (simp add: show_settings_Accepted [OF d e s])
  have S: "?S = (Inr (), fst (snd ?S), fst (snd (snd ?S)), snd (snd (snd ?S)))"
    using r by (metis prod.collapse)
  from labels_show_map [of fresh_fs default_keys fresh_fs any_python "[]" ?h ?w default_keys ?u
      fresh_fs "fst (snd ?S)" "fst (snd (snd ?S))" "snd (snd (snd ?S))"]
    load_fn_keys_fresh d distinct_default_keys S
  show ?thesis by auto
qed

section \<open>The order of the rows\<close>

lemma FnKeyWindow_init_PDict:
  assumes "FnKeyWindow_init py (fs, h) = (Inr w, fs', h')"
  shows "\<exists>d. load_fn_keys fs = (Inr (PDict d), fs') \<and> map fst (key_labels w) = map fst d"
proof -
  obtain r fs1 where l: "load_fn_keys fs = (r, fs1)" by (cases "load_fn_keys fs")
  from assms show ?thesis
    by (auto simp: FnKeyWindow_init_def l new_dict_def comp_def case_prod_beta
        split: sum.splits pyval.splits)
qed

lemma update_key_labels_keys:
  "update_key_labels py h w = Inr w' \<Longrightarrow> map fst (key_labels w') = map fst (key_labels w)"
  by (auto simp: update_key_labels_def comp_def case_prod_beta split: option.splits)

lemma show_settings_keys:
  assumes "show_settings py user (w, fs, h) = (r, w', fs', h')"
  shows "map fst (key_labels w') = map fst (key_labels w)"
  using assms
  by (auto simp: show_settings_def Let_def new_dict_def
      dest: update_key_labels_keys split: prod.splits sum.splits dialog_code.splits)

text \<open>
  C7, as amended. The rows are in the order of the keys of the map that
  \<open>load_fn_keys\<close> returned, which for a stored file is the order in which the
  file has them; \<open>show_settings\<close> keeps the order of the rows.
\<close>

theorem rows_in_loaded_order:
  "(FnKeyWindow_init py (fs, h) = (Inr w, fs', h') \<longrightarrow>
      (\<exists>d. load_fn_keys fs = (Inr (PDict d), fs') \<and> map fst (key_labels w) = map fst d))
   \<and> (show_settings py user (w1, fs1, h1) = (r, w2, fs2, h2) \<longrightarrow>
      map fst (key_labels w2) = map fst (key_labels w1))"
  using FnKeyWindow_init_PDict [of py fs h w fs' h'] show_settings_keys [of py user w1 fs1 h1 r w2 fs2 h2]
  by blast

lemma faithful_map_swapped: "faithful_map swapped"
  by (simp add: faithful_map_def swapped_def faithful_ascii str_def)

lemma load_fn_keys_swapped:
  "load_fn_keys (fs_with (iterencode_dict swapped))
     = (Inr (PDict (str_dict swapped)), fs_with (iterencode_dict swapped))"
  by (rule load_fn_keys_text [where body = "iterencode_dict swapped"
        and f = "\<lparr>readable = True, writable = True, content = Some (iterencode_dict swapped)\<rparr>"])
     (simp_all add: fs_with_def loads_iterencode_dict [OF faithful_map_swapped])

theorem rows_in_loaded_order_witness:
  "\<exists>d. load_fn_keys (fs_with (iterencode_dict swapped))
          = (Inr (PDict d), fs_with (iterencode_dict swapped))
       \<and> map fst (rows swapped) = map fst d"
  using rows_in_loaded_order [of any_python "fs_with (iterencode_dict swapped)" "[]"
      "\<lparr>fn_keys = 0, key_labels = rows swapped\<rparr>" "fs_with (iterencode_dict swapped)"
      "[str_dict swapped]"]
    FnKeyWindow_init_str_dict [OF load_fn_keys_swapped, of any_python "[]"]
  by simp

text \<open>
  C7 as stated fails: for a file that stores F2 before F1 the rows are F2, F1, not the
  order F1, F2 of the keyboard.
\<close>

theorem rows_canonical_counterexample:
  "FnKeyWindow_init any_python (fs_with (iterencode_dict swapped), [])
     = (Inr \<lparr>fn_keys = 0, key_labels = rows swapped\<rparr>, fs_with (iterencode_dict swapped),
        [str_dict swapped])
   \<and> map fst (rows swapped) = [str ''F2'', str ''F1'']
   \<and> [str ''F2'', str ''F1''] \<noteq> [str ''F1'', str ''F2'']"
  using FnKeyWindow_init_str_dict [OF load_fn_keys_swapped, of any_python "[]"]
  by (simp add: map_fst_rows) (simp add: swapped_def str_def)

section \<open>The dialog and the map of its caller\<close>

lemma SettingsDialog_init_old:
  assumes "SettingsDialog_init h a = (r, h1)" "b < length h"
  shows "deref h1 b = deref h b"
  using SettingsDialog_init_heap [OF assms(1)] assms(2)
  by (auto simp: deref_def nth_append)

lemma SettingsDialog_init_copy:
  assumes "SettingsDialog_init h a = (Inr dlg, h1)"
  shows "dlg_fn_keys dlg \<noteq> a \<and> deref h1 (dlg_fn_keys dlg) = deref h a"
  using assms
  by (auto simp: SettingsDialog_init_def new_dict_def deref_def nth_append
      split: option.splits sum.splits if_splits)

lemma show_settings_old:
  assumes "show_settings py user (w, fs, h) = (r, w', fs', h')" "b < length h"
  shows "deref h' b = deref h b"
proof (cases "SettingsDialog_init h (fn_keys w)")
  case (Pair r1 h1)
  from SettingsDialog_init_heap [OF Pair] have "length h \<le> length h1 \<and> take (length h) h1 = h"
    by auto
  then have h1: "deref h1 b = deref h b" and "b < length h1"
    using assms(2) SettingsDialog_init_old [OF Pair assms(2)] by auto
  have "deref (h1 @ [d]) b = deref h1 b" for d
    using \<open>b < length h1\<close> by (simp add: deref_def nth_append)
  with h1 assms(1) show ?thesis
    by (auto simp: show_settings_def Pair Let_def new_dict_def
        split: prod.splits sum.splits dialog_code.splits)
qed

lemma show_settings_rebinds:
  assumes "show_settings py user (w, fs, h) = (Inr (), w', fs', h')" "answer user = Accepted"
  shows "length h \<le> fn_keys w'"
proof (cases "SettingsDialog_init h (fn_keys w)")
  case (Pair r1 h1)
  from SettingsDialog_init_heap [OF Pair] have "length h \<le> length h1" by auto
  moreover have "fn_keys w2 = fn_keys w1" if "update_key_labels py hh w1 = Inr w2" for hh w1 w2
    using that by (auto simp: update_key_labels_def split: option.splits)
  ultimately show ?thesis using assms
    by (auto simp: show_settings_def Pair Let_def new_dict_def exec_def
        split: prod.splits sum.splits dialog_code.splits)
qed

text \<open>
  C9. Building the dialog changes no object that was in the store: the map of the
  caller is as before, and the map of the dialog is another object with the same
  entries. Typing into the fields and \<open>get_updated_keys\<close> work on the texts of
  the fields only. The whole of \<open>show_settings\<close> changes no object that was in
  the store either; when the answer is accepted and saved, \<open>self.fn_keys\<close> is
  bound to a new object.
\<close>

theorem dialog_keeps_callers_map:
  "(SettingsDialog_init h a = (r, h1) \<longrightarrow>
      (\<forall>b<length h. deref h1 b = deref h b)
      \<and> (\<forall>dlg. r = Inr dlg \<longrightarrow> dlg_fn_keys dlg \<noteq> a \<and> deref h1 (dlg_fn_keys dlg) = deref h a))
   \<and> (show_settings py user (w, fs, h) = (r', w', fs', h') \<longrightarrow>
      (\<forall>b<length h. deref h' b = deref h b)
      \<and> (r' = Inr () \<and> answer user = Accepted \<longrightarrow> length h \<le> fn_keys w'))"
  using SettingsDialog_init_old [of h a r h1] SettingsDialog_init_copy [of h a _ h1]
    show_settings_old [of py user w fs h r' w' fs' h'] show_settings_rebinds [of py user w fs h w' fs' h']
  by blast

theorem dialog_keeps_callers_map_witness:
  "SettingsDialog_init [str_dict default_keys] 0
     = (Inr \<lparr>dlg_fn_keys = 1, edits = default_keys\<rparr>, [str_dict default_keys, str_dict default_keys])
   \<and> deref [str_dict default_keys, str_dict default_keys] 0 = deref [str_dict default_keys] 0
   \<and> deref [str_dict default_keys, str_dict default_keys] 1 = deref [str_dict default_keys] 0"
proof -
  have i: "SettingsDialog_init [str_dict default_keys] 0
     = (Inr \<lparr>dlg_fn_keys = 1, edits = default_keys\<rparr>, [str_dict default_keys, str_dict default_keys])"
    using SettingsDialog_init_str_dict [of "[str_dict default_keys]" 0 default_keys]
    by (simp add: deref_def fields_default_keys)
  from dialog_keeps_callers_map [of "[str_dict default_keys]" 0
      "Inr \<lparr>dlg_fn_keys = 1, edits = default_keys\<rparr>" "[str_dict default_keys, str_dict default_keys]"
      any_python "\<lparr>typed = [], answer = Rejected\<rparr>" "\<lparr>fn_keys = 0, key_labels = []\<rparr>"
      fresh_fs "fst (show_settings any_python \<lparr>typed = [], answer = Rejected\<rparr>
         (\<lparr>fn_keys = 0, key_labels = []\<rparr>, fresh_fs, [str_dict default_keys]))"] i
  show ?thesis by simp
qed

end
